theory Spec2Isabelle
  imports Main
begin

section \<open>Data model (package rancher)\<close>

text \<open>
  A launch configuration is a Go \<open>map[string]interface{}\<close>. Its values are opaque to the
  program except that the value under \<open>imageUuid\<close> is asserted to be a string, so a value
  is either a JSON string or some other JSON value (kept as its text).
\<close>

datatype jvalue = JString string | JOther string

type_synonym cfgmap = "string \<rightharpoonup> jvalue"

text \<open>
  Go maps are references. A map in memory is an address into the store of the world
  (\<open>None\<close> is the nil map); a map inside a JSON document is its contents (\<open>None\<close> is an
  absent or null field). The records below take the representation of the map as the
  type parameter \<open>'m\<close>.
\<close>

type_synonym ref = "nat option"

record Actions =
  aUpgrade :: string
  aRestart :: string
  aStart :: string
  aRollback :: string

record Links =
  Instances :: string

record 'm InServiceStrategy =
  BatchSize :: int
  IntervalMillis :: int
  issLaunchConfig :: 'm
  StartFirst :: bool

record 'm UpgradeT =
  InServiceStrategy :: "'m InServiceStrategy"

record 'm Service =
  Name :: string
  State :: string
  Actions :: Actions
  Links :: Links
  LaunchConfig :: 'm
  sUpgrade :: "'m UpgradeT"

record Container =
  ID :: string
  Type :: string
  cState :: string
  cActions :: Actions

record Config =
  RancherEnvID :: string
  RancherServiceID :: string
  BuildTag :: string
  RancherAccessKey :: string
  RancherSecretKey :: string
  RancherURL :: string
  RancherAPIVersion :: string
  RancherStartServiceFirst :: bool
  RancherFinishUpgrade :: bool
  Cmd :: string
  UpgradeWaitTimeout :: int
  CheckInterval :: int

text \<open>The zero values Go gives to a freshly declared struct.\<close>

definition zeroActions :: Actions where
  "zeroActions = \<lparr>aUpgrade = [], aRestart = [], aStart = [], aRollback = []\<rparr>"

definition zeroService :: "'a option Service" where
  "zeroService =
     \<lparr>Name = [], State = [], Actions = zeroActions, Links = \<lparr>Instances = []\<rparr>,
      LaunchConfig = None,
      sUpgrade = \<lparr>InServiceStrategy =
        \<lparr>BatchSize = 0, IntervalMillis = 0, issLaunchConfig = None, StartFirst = False\<rparr>\<rparr>\<rparr>"

section \<open>The world the program runs in\<close>

text \<open>
  The body of a response, as the JSON decoder sees it: the document of a service, a
  listing of instances, or bytes that are not JSON. The transport either fails
  (\<open>NetErr\<close>, the \<open>err != nil\<close> of \<open>client.Do\<close>) or yields a response.
\<close>

datatype body =
    ServiceDoc "cfgmap option Service"
  | InstancesDoc "Container list"
  | Malformed

datatype response = NetErr | Resp body

datatype request =
    GET string
  | POST string "cfgmap option UpgradeT option"

datatype error = NetError | DecodeError | TimedOut | NoServiceConfig

datatype event = Req request | Slept int | Exec string "string list"

datatype logmsg =
    LogWaiting "string list"
  | LogError error
  | LogState string
  | LogTimedOut "string list"
  | LogUpgrading string string string
  | LogFinishing string
  | LogResponse body
  | LogRollbackOK
  | LogNotStartable Container
  | LogStarting Container
  | LogNotUpgradeable string
  | LogText string

text \<open>
  The environment answers the \<open>i\<close>-th request the process issues and says how long the
  request takes (in nanoseconds); it also decides whether the external verification
  command fails. The world is what the process changes: the wall clock (nanoseconds),
  the number of requests issued, the trace of requests, sleeps and commands, the log,
  and the store of maps with its allocation counter.

  Time passes in requests and in sleeps only, and a sleep lasts exactly as long as
  asked. Building a request (\<open>http.NewRequest\<close>) is taken to succeed: the URLs of the
  configuration and of the documents are well formed. Credentials and headers are
  left to the transport.
\<close>

record env =
  respond :: "nat \<Rightarrow> request \<Rightarrow> response"
  latency :: "nat \<Rightarrow> nat"
  cmd_fails :: "string \<Rightarrow> string list \<Rightarrow> bool"

record world =
  clock :: int
  nreq :: nat
  trace :: "event list"
  logs :: "logmsg list"
  heap :: "nat \<Rightarrow> cfgmap"
  nalloc :: nat

definition Do :: "env \<Rightarrow> request \<Rightarrow> world \<Rightarrow> response \<times> world" where
  "Do E q w =
     (respond E (nreq w) q,
      w\<lparr>clock := clock w + int (latency E (nreq w)),
        nreq := Suc (nreq w),
        trace := trace w @ [Req q]\<rparr>)"

definition log :: "logmsg \<Rightarrow> world \<Rightarrow> world" where
  "log m w = w\<lparr>logs := logs w @ [m]\<rparr>"

text \<open>\<open>time.Sleep\<close> returns at once for a duration that is zero or negative.\<close>

definition time_Sleep :: "int \<Rightarrow> world \<Rightarrow> world" where
  "time_Sleep d w = w\<lparr>clock := clock w + max 0 d, trace := trace w @ [Slept d]\<rparr>"

text \<open>
  \<open>time.ParseDuration(fmt.Sprintf("%ds", n))\<close> with the error discarded: the duration
  in nanoseconds, or zero when the library rejects the text because the value does
  not fit 63 bits.
\<close>

definition seconds :: "int \<Rightarrow> int" where
  "seconds n = (if \<bar>n\<bar> \<le> 9223372036 then n * 1000000000 else 0)"

text \<open>Decoding allocates a fresh map for every map-valued field that is present.\<close>

definition alloc :: "cfgmap option \<Rightarrow> world \<Rightarrow> ref \<times> world" where
  "alloc m w =
     (case m of
        None \<Rightarrow> (None, w)
      | Some c \<Rightarrow> (Some (nalloc w), w\<lparr>heap := (heap w)(nalloc w := c), nalloc := Suc (nalloc w)\<rparr>))"

text \<open>
  \<open>json.NewDecoder(res.Body).Decode(&service)\<close> into a zero \<open>Service\<close>: the decoded
  struct and whether the decoder reported an error. A JSON object without the fields
  of a service leaves the struct at its zero value.
\<close>

definition Decode_Service :: "body \<Rightarrow> world \<Rightarrow> (ref Service \<times> bool) \<times> world" where
  "Decode_Service b w =
     (case b of
        ServiceDoc d \<Rightarrow>
          (case alloc (LaunchConfig d) w of (r1, w1) \<Rightarrow>
           case alloc (issLaunchConfig (InServiceStrategy (sUpgrade d))) w1 of (r2, w2) \<Rightarrow>
             ((\<lparr>Name = Name d, State = State d, Actions = Actions d, Links = Links d,
                LaunchConfig = r1,
                sUpgrade = \<lparr>InServiceStrategy =
                  \<lparr>BatchSize = BatchSize (InServiceStrategy (sUpgrade d)),
                   IntervalMillis = IntervalMillis (InServiceStrategy (sUpgrade d)),
                   issLaunchConfig = r2,
                   StartFirst = StartFirst (InServiceStrategy (sUpgrade d))\<rparr>\<rparr>\<rparr>, False), w2))
      | InstancesDoc cs \<Rightarrow> ((zeroService, False), w)
      | Malformed \<Rightarrow> ((zeroService, True), w))"

definition Decode_Instances :: "body \<Rightarrow> Container list \<times> bool" where
  "Decode_Instances b =
     (case b of
        InstancesDoc cs \<Rightarrow> (cs, False)
      | ServiceDoc d \<Rightarrow> ([], False)
      | Malformed \<Rightarrow> ([], True))"

section \<open>Package upgrader\<close>

record rancherUpgrader =
  svcURL :: string
  cfg :: Config

definition New :: "Config \<Rightarrow> rancherUpgrader" where
  "New c =
     \<lparr>svcURL = RancherURL c @ ''/'' @ RancherAPIVersion c @ ''/projects/'' @ RancherEnvID c
                @ ''/services/'' @ RancherServiceID c,
      cfg = c\<rparr>"

subsection \<open>WaitFor\<close>

text \<open>
  The polling loop. A failed fetch is logged and the loop continues at once, before the
  sleep and before the comparison with the timeout. The loop has no other exit than the
  two returns, so it is a partial function: \<open>None\<close> is the loop that never returns.
\<close>

partial_function (option) WaitFor_loop ::
  "env \<Rightarrow> rancherUpgrader \<Rightarrow> string list \<Rightarrow> int \<Rightarrow> world
    \<Rightarrow> ((ref Service option \<times> error option) \<times> world) option"
where
  "WaitFor_loop E r desiredState start w =
     (case Do E (GET (svcURL r)) w of
        (NetErr, w1) \<Rightarrow> WaitFor_loop E r desiredState start (log (LogError NetError) w1)
      | (Resp b, w1) \<Rightarrow>
          (case Decode_Service b w1 of ((service, _), w2) \<Rightarrow>
             let w3 = log (LogState (State service)) w2 in
             if State service \<in> set desiredState then Some ((Some service, None), w3)
             else
               let w4 = time_Sleep (seconds (CheckInterval (cfg r))) w3 in
               if clock w4 - start > seconds (UpgradeWaitTimeout (cfg r))
               then Some ((Some service, Some TimedOut), log (LogTimedOut desiredState) w4)
               else WaitFor_loop E r desiredState start w4))"

definition WaitFor ::
  "env \<Rightarrow> rancherUpgrader \<Rightarrow> string list \<Rightarrow> world
    \<Rightarrow> ((ref Service option \<times> error option) \<times> world) option"
where
  "WaitFor E r desiredState w =
     WaitFor_loop E r desiredState (clock w) (log (LogWaiting desiredState) w)"


subsection \<open>GetServiceConfig, Upgrade and its options\<close>

text \<open>
  A Go call either returns or panics; a panic inside a call unwinds through every
  caller and ends the process.
\<close>

datatype 'a outcome = Return 'a | Panic

definition GetServiceConfig ::
  "env \<Rightarrow> rancherUpgrader \<Rightarrow> world \<Rightarrow> (ref Service option \<times> error option) \<times> world"
where
  "GetServiceConfig E r w =
     (case Do E (GET (svcURL r)) w of
        (NetErr, w1) \<Rightarrow> ((None, Some NetError), log (LogError NetError) w1)
      | (Resp b, w1) \<Rightarrow>
          (case Decode_Service b w1 of ((svcConfig, err), w2) \<Rightarrow>
             if err then ((None, Some DecodeError), w2)
             else ((Some svcConfig, None), w2)))"

text \<open>
  An option mutates the service it is given. \<open>ImageUUID\<close> stores into the map the
  service refers to; storing into a nil map panics.
\<close>

type_synonym Option = "ref Service \<Rightarrow> world \<Rightarrow> world outcome"

definition ImageUUID :: "string \<Rightarrow> Option" where
  "ImageUUID uuid s w =
     (case LaunchConfig s of
        None \<Rightarrow> Panic
      | Some a \<Rightarrow> Return (w\<lparr>heap := (heap w)(a := (heap w a)(''imageUuid'' \<mapsto> JString uuid))\<rparr>))"

fun apply_options :: "Option list \<Rightarrow> ref Service \<Rightarrow> world \<Rightarrow> world outcome" where
  "apply_options [] s w = Return w"
| "apply_options (opt # opts) s w =
     (case opt s w of Panic \<Rightarrow> Panic | Return w1 \<Rightarrow> apply_options opts s w1)"

text \<open>
  \<open>json.Marshal(payload)\<close> reads, at the moment of the call, the map the payload refers
  to.
\<close>

definition deref :: "world \<Rightarrow> ref \<Rightarrow> cfgmap option" where
  "deref w a = map_option (heap w) a"

definition Marshal :: "world \<Rightarrow> ref UpgradeT \<Rightarrow> cfgmap option UpgradeT" where
  "Marshal w p =
     \<lparr>InServiceStrategy =
        \<lparr>BatchSize = BatchSize (InServiceStrategy p),
         IntervalMillis = IntervalMillis (InServiceStrategy p),
         issLaunchConfig = deref w (issLaunchConfig (InServiceStrategy p)),
         StartFirst = StartFirst (InServiceStrategy p)\<rparr>\<rparr>"

definition Upgrade ::
  "env \<Rightarrow> rancherUpgrader \<Rightarrow> ref UpgradeT \<Rightarrow> Option list \<Rightarrow> world
    \<Rightarrow> error option outcome \<times> world"
where
  "Upgrade E r payload options w =
     (case GetServiceConfig E r w of
        ((_, Some e), w1) \<Rightarrow> (Return (Some e), w1)
      | ((None, None), w1) \<Rightarrow> (Panic, w1)
      | ((Some svcConfig, None), w1) \<Rightarrow>
          (case apply_options options svcConfig w1 of
             Panic \<Rightarrow> (Panic, w1)
           | Return w2 \<Rightarrow>
               let w3 = log (LogUpgrading (Name svcConfig) (RancherEnvID (cfg r)) (BuildTag (cfg r))) w2;
                   data = Marshal w3 payload
               in (case Do E (POST (aUpgrade (Actions svcConfig)) (Some data)) w3 of
                     (NetErr, w4) \<Rightarrow> (Return (Some NetError), w4)
                   | (Resp _, w4) \<Rightarrow> (Return None, w4))))"

subsection \<open>FinishUpgrade\<close>

definition FinishUpgrade ::
  "env \<Rightarrow> rancherUpgrader \<Rightarrow> world
    \<Rightarrow> ((ref Service option \<times> error option) \<times> world) option"
where
  "FinishUpgrade E r w =
     (case Do E (POST (svcURL r @ ''?action=finishupgrade'') None) w of
        (NetErr, w1) \<Rightarrow> Some ((None, Some NetError), w1)
      | (Resp b, w1) \<Rightarrow>
          (case Decode_Service b w1 of ((svc, err), w2) \<Rightarrow>
             if err then Some ((None, Some DecodeError), w2)
             else
               (case WaitFor E r [''active''] (log (LogFinishing (Name svc)) w2) of
                  None \<Rightarrow> None
                | Some ((svcCfg, Some e), w3) \<Rightarrow> Some ((None, Some e), w3)
                | Some ((svcCfg, None), w3) \<Rightarrow> Some ((svcCfg, None), w3))))"

subsection \<open>Rollback and the container sweep\<close>

fun startContainers_loop :: "env \<Rightarrow> Container list \<Rightarrow> world \<Rightarrow> error option \<times> world" where
  "startContainers_loop E [] w = (None, w)"
| "startContainers_loop E (container # rest) w =
     (if aStart (cActions container) = [] then
        startContainers_loop E rest (log (LogNotStartable container) w)
      else
        (case Do E (POST (aStart (cActions container)) None) (log (LogStarting container) w) of
           (NetErr, w1) \<Rightarrow> (Some NetError, w1)
         | (Resp _, w1) \<Rightarrow> startContainers_loop E rest w1))"

definition startContainers :: "env \<Rightarrow> ref Service \<Rightarrow> world \<Rightarrow> error option \<times> world" where
  "startContainers E svcConfig w =
     (case Do E (GET (Instances (Links svcConfig))) w of
        (NetErr, w1) \<Rightarrow> (Some NetError, w1)
      | (Resp b, w1) \<Rightarrow>
          (case Decode_Instances b of
             (instances, True) \<Rightarrow> (Some DecodeError, w1)
           | (instances, False) \<Rightarrow> startContainers_loop E instances w1))"

text \<open>
  \<open>startContainers\<close> dereferences the service pointer it is handed, so a nil pointer
  from the wait would panic there.
\<close>

definition Rollback ::
  "env \<Rightarrow> rancherUpgrader \<Rightarrow> world \<Rightarrow> (error option outcome \<times> world) option"
where
  "Rollback E r w =
     (case Do E (POST (svcURL r @ ''?action=rollback'') None) w of
        (NetErr, w1) \<Rightarrow> Some (Return (Some NetError), w1)
      | (Resp b, w1) \<Rightarrow>
          (case WaitFor E r [''active''] (log (LogResponse b) w1) of
             None \<Rightarrow> None
           | Some ((svc, Some e), w2) \<Rightarrow> Some (Return (Some e), w2)
           | Some ((None, None), w2) \<Rightarrow> Some (Panic, w2)
           | Some ((Some svc, None), w2) \<Rightarrow>
               (case startContainers E svc w2 of
                  (Some e, w3) \<Rightarrow> Some (Return (Some e), w3)
                | (None, w3) \<Rightarrow> Some (Return None, log LogRollbackOK w3))))"

subsection \<open>Cancel\<close>

text \<open>What \<open>Cancel\<close> does with the pair the wait returned.\<close>

definition Cancel_after_wait ::
  "env \<Rightarrow> rancherUpgrader \<Rightarrow> ref Service option \<times> error option \<Rightarrow> world
    \<Rightarrow> (error option outcome \<times> world) option"
where
  "Cancel_after_wait E r res w =
     (case res of
        (svc, Some e) \<Rightarrow> Some (Return (Some e), log (LogError e) w)
      | (Some svc, None) \<Rightarrow> Rollback E r w
      | (None, None) \<Rightarrow> Some (Return (Some NoServiceConfig), w))"

definition Cancel ::
  "env \<Rightarrow> rancherUpgrader \<Rightarrow> world \<Rightarrow> (error option outcome \<times> world) option"
where
  "Cancel E r w =
     (case Do E (POST (svcURL r @ ''?action=cancelupgrade'') None) w of
        (NetErr, w1) \<Rightarrow> Some (Return (Some NetError), log (LogError NetError) w1)
      | (Resp b, w1) \<Rightarrow>
          (case WaitFor E r [''upgraded'', ''canceled-upgrade'', ''active'']
                  (log (LogResponse b) w1) of
             None \<Rightarrow> None
           | Some (res, w2) \<Rightarrow> Cancel_after_wait E r res w2))"


section \<open>The image reference rewrite\<close>

text \<open>
  \<open>regexp.MustCompile(":[a-z0-9]+$").ReplaceAllString(imageUUID, ":"+cfg.BuildTag)\<close>.
  The pattern is anchored at the end of the text, so a match is a colon followed by
  one or more characters of the class up to the end; \<open>findMatch\<close> tries the start
  positions from the left and returns the text before the match and the match.
  After a match that ends the text there is nothing left to replace.

  The library expands \<open>$\<close> references inside the replacement text. That expansion is
  not part of this repository: it is the parameter \<open>X\<close> (template, matched text), used
  only when the replacement contains a \<open>$\<close>; a replacement without one is literal.
\<close>

definition tagChar :: "char \<Rightarrow> bool" where
  "tagChar c = (c \<in> set ''abcdefghijklmnopqrstuvwxyz0123456789'')"

fun findMatch :: "string \<Rightarrow> (string \<times> string) option" where
  "findMatch [] = None"
| "findMatch (c # cs) =
     (if c = CHR '':'' \<and> cs \<noteq> [] \<and> list_all tagChar cs then Some ([], c # cs)
      else (case findMatch cs of None \<Rightarrow> None | Some (p, m) \<Rightarrow> Some (c # p, m)))"

definition ReplaceAllString ::
  "(string \<Rightarrow> string \<Rightarrow> string) \<Rightarrow> string \<Rightarrow> string \<Rightarrow> string"
where
  "ReplaceAllString X src repl =
     (case findMatch src of
        None \<Rightarrow> src
      | Some (p, m) \<Rightarrow> p @ (if CHR ''$'' \<in> set repl then X repl m else repl))"

definition rewriteImage :: "(string \<Rightarrow> string \<Rightarrow> string) \<Rightarrow> string \<Rightarrow> string \<Rightarrow> string" where
  "rewriteImage X imageUUID buildTag = ReplaceAllString X imageUUID ('':'' @ buildTag)"

section \<open>The orchestrator (func main)\<close>

text \<open>
  How the process ends: status 0, \<open>log.Fatal\<close> (status 1), or an unrecovered panic
  (status 2).
\<close>

datatype exit = ExitOK | ExitFatal | ExitPanic

text \<open>
  \<open>StreamingExternalCmd\<close> runs the verification command and reports whether it failed
  (it could not be started, or it left with a status other than zero); draining the
  output of the command has no part in that result.
\<close>

definition StreamingExternalCmd :: "env \<Rightarrow> string \<Rightarrow> string list \<Rightarrow> world \<Rightarrow> bool \<times> world" where
  "StreamingExternalCmd E command args w =
     (cmd_fails E command args,
      (log (LogText ''Starting external command'') w)\<lparr>trace := trace w @ [Exec command args]\<rparr>)"

text \<open>\<open>strings.Split(s, " ")\<close>: the fields between single spaces, empty ones included.\<close>

fun Split :: "string \<Rightarrow> string list" where
  "Split [] = [[]]"
| "Split (c # cs) =
     (if c = CHR '' '' then [] # Split cs
      else (case Split cs of [] \<Rightarrow> [[c]] | x # xs \<Rightarrow> (c # x) # xs))"

text \<open>The finish-upgrade decision that ends \<open>main\<close>.\<close>

definition main_finish :: "env \<Rightarrow> Config \<Rightarrow> rancherUpgrader \<Rightarrow> world \<Rightarrow> (exit \<times> world) option" where
  "main_finish E c ru w =
     (if RancherFinishUpgrade c then
        (case FinishUpgrade E ru (log (LogText ''Service upgraded, finishing the upgrade'') w) of
           None \<Rightarrow> None
         | Some ((svc, Some e), w1) \<Rightarrow> Some (ExitFatal, log (LogError e) w1)
         | Some ((None, None), w1) \<Rightarrow> Some (ExitPanic, w1)
         | Some ((Some svc, None), w1) \<Rightarrow>
             Some (ExitOK, log (LogText (''Service upgrade successful, finished upgrade of '' @ Name svc)) w1))
      else
        Some (ExitOK, log (LogText ''Service upgrade successful, skipping the finish upgrade step'') w))"

text \<open>The optional verification command, and the rollback when it fails.\<close>

definition main_verify :: "env \<Rightarrow> Config \<Rightarrow> rancherUpgrader \<Rightarrow> world \<Rightarrow> (exit \<times> world) option" where
  "main_verify E c ru w =
     (if Cmd c \<noteq> [] then
        (case Split (Cmd c) of
           [] \<Rightarrow> Some (ExitPanic, w)
         | command # args \<Rightarrow>
             (case StreamingExternalCmd E command args w of
                (True, w1) \<Rightarrow>
                  (case Rollback E ru
                          (log (LogText ''External command failed, rolling back the service upgrade'') w1) of
                     None \<Rightarrow> None
                   | Some (Panic, w2) \<Rightarrow> Some (ExitPanic, w2)
                   | Some (Return (Some e), w2) \<Rightarrow> Some (ExitFatal, log (LogError e) w2)
                   | Some (Return None, w2) \<Rightarrow> Some (ExitFatal, log (LogText ''Rolled back'') w2))
              | (False, w1) \<Rightarrow> main_finish E c ru w1))
      else main_finish E c ru w)"

text \<open>The wait for \<open>upgraded\<close>, and the cancellation when the wait returns an error.\<close>

definition main_wait :: "env \<Rightarrow> Config \<Rightarrow> rancherUpgrader \<Rightarrow> world \<Rightarrow> (exit \<times> world) option" where
  "main_wait E c ru w =
     (case WaitFor E ru [''upgraded''] w of
        None \<Rightarrow> None
      | Some ((_, Some e), w1) \<Rightarrow>
          (case Cancel E ru (log (LogText ''Cancelling upgrade'') w1) of
             None \<Rightarrow> None
           | Some (Panic, w2) \<Rightarrow> Some (ExitPanic, w2)
           | Some (Return _, w2) \<Rightarrow> Some (ExitFatal, log (LogText ''Cancelled upgrade'') w2))
      | Some ((_, None), w1) \<Rightarrow> main_verify E c ru w1)"

text \<open>
  \<open>main\<close> after the configuration has been read. The error of the first
  \<open>GetServiceConfig\<close> is not looked at, so a nil service panics at the first field
  access; the type assertion on \<open>imageUuid\<close> panics when the entry is missing or is
  not a string.
\<close>

definition main ::
  "(string \<Rightarrow> string \<Rightarrow> string) \<Rightarrow> env \<Rightarrow> Config \<Rightarrow> world \<Rightarrow> (exit \<times> world) option"
where
  "main X E c w =
     (let ru = New c in
      case GetServiceConfig E ru w of
        ((None, _), w1) \<Rightarrow> Some (ExitPanic, w1)
      | ((Some svcConfig, _), w1) \<Rightarrow>
          if aUpgrade (Actions svcConfig) = [] then
            Some (ExitFatal, log (LogNotUpgradeable (State svcConfig)) w1)
          else
            (case (case LaunchConfig svcConfig of None \<Rightarrow> None | Some a \<Rightarrow> heap w1 a ''imageUuid'') of
               Some (JString imageUUID) \<Rightarrow>
                 (case Upgrade E ru
                         \<lparr>InServiceStrategy =
                            \<lparr>BatchSize = BatchSize (InServiceStrategy (sUpgrade svcConfig)),
                             IntervalMillis = IntervalMillis (InServiceStrategy (sUpgrade svcConfig)),
                             issLaunchConfig = LaunchConfig svcConfig,
                             StartFirst = RancherStartServiceFirst c\<rparr>\<rparr>
                         [ImageUUID (rewriteImage X imageUUID (BuildTag c))] w1 of
                    (Panic, w2) \<Rightarrow> Some (ExitPanic, w2)
                  | (Return (Some e), w2) \<Rightarrow> Some (ExitFatal, log (LogError e) w2)
                  | (Return None, w2) \<Rightarrow> main_wait E c ru w2)
             | _ \<Rightarrow> Some (ExitPanic, w1)))"


section \<open>The earlier orchestrator (cmd/main.go)\<close>

text \<open>
  The single-file orchestrator works on the same data and the same configuration.
  Its \<open>waitFor\<close> and \<open>startContainers\<close> have, statement for statement, the bodies of
  \<open>WaitFor\<close> and \<open>startContainers\<close> above, with the URL and the configuration as
  parameters.
\<close>

definition waitFor ::
  "env \<Rightarrow> Config \<Rightarrow> string \<Rightarrow> string list \<Rightarrow> world
    \<Rightarrow> ((ref Service option \<times> error option) \<times> world) option"
where
  "waitFor E c serviceURL desiredState w =
     WaitFor E \<lparr>svcURL = serviceURL, cfg = c\<rparr> desiredState w"

text \<open>
  \<open>rollback\<close> falls back on the service it was handed when the wait returns nil.
\<close>

definition rollback ::
  "env \<Rightarrow> Config \<Rightarrow> ref Service \<Rightarrow> string \<Rightarrow> world \<Rightarrow> (error option \<times> world) option"
where
  "rollback E c svcConfig serviceURL w =
     (case Do E (POST (serviceURL @ ''?action=rollback'') None) w of
        (NetErr, w1) \<Rightarrow> Some (Some NetError, w1)
      | (Resp b, w1) \<Rightarrow>
          (case waitFor E c serviceURL [''active''] (log (LogResponse b) w1) of
             None \<Rightarrow> None
           | Some ((svc, Some e), w2) \<Rightarrow> Some (Some e, w2)
           | Some ((svc, None), w2) \<Rightarrow>
               (case startContainers E (case svc of None \<Rightarrow> svcConfig | Some s \<Rightarrow> s) w2 of
                  (Some e, w3) \<Rightarrow> Some (Some e, w3)
                | (None, w3) \<Rightarrow> Some (None, log LogRollbackOK w3))))"

text \<open>
  \<open>cancel\<close> ends the process with \<open>log.Fatal\<close> when the cancel request fails (\<open>Inr\<close>);
  an error of the wait is logged and the rollback goes ahead.
\<close>

definition cancel ::
  "env \<Rightarrow> Config \<Rightarrow> string \<Rightarrow> world \<Rightarrow> ((error option + exit) \<times> world) option"
where
  "cancel E c serviceURL w =
     (case Do E (POST (serviceURL @ ''?action=cancelupgrade'') None) w of
        (NetErr, w1) \<Rightarrow> Some (Inr ExitFatal, log (LogError NetError) w1)
      | (Resp b, w1) \<Rightarrow>
          (case waitFor E c serviceURL [''upgraded'', ''canceled-upgrade'', ''active'']
                  (log (LogResponse b) w1) of
             None \<Rightarrow> None
           | Some ((svc, err), w2) \<Rightarrow>
               let w3 = (case err of None \<Rightarrow> w2 | Some e \<Rightarrow> log (LogError e) w2) in
               (case svc of
                  None \<Rightarrow> Some (Inl (Some NoServiceConfig), w3)
                | Some s \<Rightarrow>
                    (case rollback E c s serviceURL w3 of
                       None \<Rightarrow> None
                     | Some (res, w4) \<Rightarrow> Some (Inl res, w4)))))"

text \<open>The end of this \<open>main\<close>: the finish request, without a wait after it.\<close>

definition cmd_main_finish :: "env \<Rightarrow> Config \<Rightarrow> string \<Rightarrow> world \<Rightarrow> exit \<times> world" where
  "cmd_main_finish E c serviceURL w =
     (if RancherFinishUpgrade c then
        (case Do E (POST (serviceURL @ ''?action=finishupgrade'') None)
                (log (LogText ''Service upgraded, finishing the upgrade'') w) of
           (NetErr, w1) \<Rightarrow> (ExitFatal, log (LogError NetError) w1)
         | (Resp b, w1) \<Rightarrow> (ExitOK, log (LogResponse b) w1))
      else
        (ExitOK, log (LogText ''Service upgrade successful, skipping the finish upgrade step'') w))"

definition cmd_main_verify ::
  "env \<Rightarrow> Config \<Rightarrow> ref Service \<Rightarrow> string \<Rightarrow> world \<Rightarrow> (exit \<times> world) option"
where
  "cmd_main_verify E c svcConfig serviceURL w =
     (if Cmd c \<noteq> [] then
        (case Split (Cmd c) of
           [] \<Rightarrow> Some (ExitPanic, w)
         | command # args \<Rightarrow>
             (case StreamingExternalCmd E command args w of
                (True, w1) \<Rightarrow>
                  (case rollback E c svcConfig serviceURL
                          (log (LogText ''External command failed, rolling back the service upgrade'') w1) of
                     None \<Rightarrow> None
                   | Some (Some e, w2) \<Rightarrow> Some (ExitFatal, log (LogError e) w2)
                   | Some (None, w2) \<Rightarrow> Some (ExitFatal, log (LogText ''Rolled back'') w2))
              | (False, w1) \<Rightarrow> Some (cmd_main_finish E c serviceURL w1)))
      else Some (cmd_main_finish E c serviceURL w))"

definition cmd_main_wait ::
  "env \<Rightarrow> Config \<Rightarrow> ref Service \<Rightarrow> string \<Rightarrow> world \<Rightarrow> (exit \<times> world) option"
where
  "cmd_main_wait E c svcConfig serviceURL w =
     (case waitFor E c serviceURL [''upgraded''] w of
        None \<Rightarrow> None
      | Some ((_, Some e), w1) \<Rightarrow>
          (case cancel E c serviceURL (log (LogText ''Cancelling upgrade'') w1) of
             None \<Rightarrow> None
           | Some (Inr ex, w2) \<Rightarrow> Some (ex, w2)
           | Some (Inl _, w2) \<Rightarrow> Some (ExitFatal, log (LogText ''Cancelled upgrade'') w2))
      | Some ((_, None), w1) \<Rightarrow> cmd_main_verify E c svcConfig serviceURL w1)"

text \<open>
  This \<open>main\<close> fetches the service itself and ignores the error of the decoder. It
  stores the rewritten image reference into the map of the service it fetched (the
  assignment that is the body of \<open>ImageUUID\<close>), and the payload it serialises refers to
  that same map.
\<close>

definition cmd_main ::
  "(string \<Rightarrow> string \<Rightarrow> string) \<Rightarrow> env \<Rightarrow> Config \<Rightarrow> world \<Rightarrow> (exit \<times> world) option"
where
  "cmd_main X E c w =
     (let serviceURL = RancherURL c @ ''/'' @ RancherAPIVersion c @ ''/projects/'' @ RancherEnvID c
                         @ ''/services/'' @ RancherServiceID c in
      case Do E (GET serviceURL) w of
        (NetErr, w1) \<Rightarrow> Some (ExitFatal, log (LogError NetError) w1)
      | (Resp b, w1) \<Rightarrow>
          (case Decode_Service b w1 of ((svcConfig, _), w2) \<Rightarrow>
             if aUpgrade (Actions svcConfig) = [] then
               Some (ExitFatal, log (LogNotUpgradeable (State svcConfig)) w2)
             else
               (case (case LaunchConfig svcConfig of None \<Rightarrow> None | Some a \<Rightarrow> heap w2 a ''imageUuid'') of
                  Some (JString imageUUID) \<Rightarrow>
                    (case ImageUUID (rewriteImage X imageUUID (BuildTag c)) svcConfig w2 of
                       Panic \<Rightarrow> Some (ExitPanic, w2)
                     | Return w3 \<Rightarrow>
                         let data = Marshal w3
                               \<lparr>InServiceStrategy =
                                  \<lparr>BatchSize = BatchSize (InServiceStrategy (sUpgrade svcConfig)),
                                   IntervalMillis = IntervalMillis (InServiceStrategy (sUpgrade svcConfig)),
                                   issLaunchConfig = LaunchConfig svcConfig,
                                   StartFirst = RancherStartServiceFirst c\<rparr>\<rparr>;
                             w4 = log (LogUpgrading (Name svcConfig) (RancherEnvID c) (BuildTag c)) w3
                         in (case Do E (POST (aUpgrade (Actions svcConfig)) (Some data)) w4 of
                               (NetErr, w5) \<Rightarrow> Some (ExitFatal, log (LogError NetError) w5)
                             | (Resp _, w5) \<Rightarrow> cmd_main_wait E c svcConfig serviceURL w5))
                | _ \<Rightarrow> Some (ExitPanic, w2))))"

section \<open>Notions used to state the properties\<close>

text \<open>
  The document a response body decodes to, and the document a service in memory
  stands for once its map references are followed in a given world.
\<close>

definition doc_of :: "body \<Rightarrow> cfgmap option Service" where
  "doc_of b = (case b of ServiceDoc d \<Rightarrow> d | InstancesDoc cs \<Rightarrow> zeroService | Malformed \<Rightarrow> zeroService)"

definition snapshot :: "world \<Rightarrow> ref Service \<Rightarrow> cfgmap option Service" where
  "snapshot w s =
     \<lparr>Name = Name s, State = State s, Actions = Actions s, Links = Links s,
      LaunchConfig = deref w (LaunchConfig s), sUpgrade = Marshal w (sUpgrade s)\<rparr>"

text \<open>
  The time since a wait began, right after the interval sleep that follows the fetch
  number \<open>j\<close> of the wait, where \<open>n\<close> is the number of requests issued before the wait:
  every fetch so far has taken its latency, and every fetch that succeeded was
  followed by a sleep.
\<close>

definition elapsed_after :: "env \<Rightarrow> rancherUpgrader \<Rightarrow> nat \<Rightarrow> nat \<Rightarrow> int" where
  "elapsed_after E r n j =
     (\<Sum>i\<le>j. int (latency E (n + i)) +
        (if respond E (n + i) (GET (svcURL r)) = NetErr then 0
         else max 0 (seconds (CheckInterval (cfg r)))))"

text \<open>
  The events of the first \<open>k\<close> fetches of a wait that goes on after each of them, when
  the first of them is request number \<open>n\<close>: a fetch that fails is followed by the next
  fetch at once, a fetch that is answered is followed by the interval sleep.
\<close>

primrec poll_events :: "env \<Rightarrow> rancherUpgrader \<Rightarrow> nat \<Rightarrow> nat \<Rightarrow> event list" where
  "poll_events E r n 0 = []"
| "poll_events E r n (Suc k) =
     Req (GET (svcURL r)) #
     (if respond E n (GET (svcURL r)) = NetErr then []
      else [Slept (seconds (CheckInterval (cfg r)))]) @
     poll_events E r (Suc n) k"

text \<open>
  The fetch that ends a wait: fetch number \<open>k\<close> of the wait is answered, and either the
  state it reports is a desired one or the time spent up to the end of the sleep that
  follows it exceeds the timeout.
\<close>

definition decides :: "env \<Rightarrow> rancherUpgrader \<Rightarrow> string list \<Rightarrow> nat \<Rightarrow> nat \<Rightarrow> bool" where
  "decides E r D n k =
     (case respond E (n + k) (GET (svcURL r)) of
        NetErr \<Rightarrow> False
      | Resp b \<Rightarrow>
          State (doc_of b) \<in> set D \<or>
          seconds (UpgradeWaitTimeout (cfg r)) < elapsed_after E r n k)"




section \<open>Concrete runs\<close>

text \<open>
  A configuration, an initial world and a few environments on which the properties
  below are exercised.
\<close>

definition cfg0 :: Config where
  "cfg0 =
     \<lparr>RancherEnvID = ''1a5'', RancherServiceID = ''1s7'', BuildTag = ''v2'',
      RancherAccessKey = ''key'', RancherSecretKey = ''secret'',
      RancherURL = ''http://rancher'', RancherAPIVersion = ''v1'',
      RancherStartServiceFirst = False, RancherFinishUpgrade = True, Cmd = [],
      UpgradeWaitTimeout = 3600, CheckInterval = 1\<rparr>"

definition url0 :: string where
  "url0 = ''http://rancher/v1/projects/1a5/services/1s7''"

definition w0 :: world where
  "w0 = \<lparr>clock = 0, nreq = 0, trace = [], logs = [], heap = (\<lambda>a. Map.empty), nalloc = 0\<rparr>"

definition svc_doc :: "string \<Rightarrow> cfgmap option Service" where
  "svc_doc st =
     \<lparr>Name = ''web'', State = st,
      Actions = \<lparr>aUpgrade = ''http://rancher/v1/projects/1a5/services/1s7/?action=upgrade'',
                 aRestart = [], aStart = [], aRollback = []\<rparr>,
      Links = \<lparr>Instances = ''http://rancher/v1/projects/1a5/services/1s7/instances''\<rparr>,
      LaunchConfig = Some [''imageUuid'' \<mapsto> JString ''docker:repo/img:old''],
      sUpgrade = \<lparr>InServiceStrategy =
        \<lparr>BatchSize = 1, IntervalMillis = 2000, issLaunchConfig = None, StartFirst = False\<rparr>\<rparr>\<rparr>"

text \<open>Every request fails in transport; each attempt takes one second.\<close>

definition env_down :: env where
  "env_down = \<lparr>respond = (\<lambda>i q. NetErr), latency = (\<lambda>i. 1000000000), cmd_fails = (\<lambda>c a. False)\<rparr>"

text \<open>The first fetch sees \<open>upgrading\<close>, every later one fails; each takes five seconds.\<close>

definition env_once :: env where
  "env_once =
     \<lparr>respond = (\<lambda>i q. if i = 0 then Resp (ServiceDoc (svc_doc ''upgrading'')) else NetErr),
      latency = (\<lambda>i. 5000000000), cmd_fails = (\<lambda>c a. False)\<rparr>"

text \<open>The service stays in \<open>upgrading\<close> for ever.\<close>

definition env_stuck :: env where
  "env_stuck =
     \<lparr>respond = (\<lambda>i q. Resp (ServiceDoc (svc_doc ''upgrading''))),
      latency = (\<lambda>i. 0), cmd_fails = (\<lambda>c a. False)\<rparr>"

text \<open>The first fetch sees \<open>upgrading\<close>, the later ones \<open>upgraded\<close>.\<close>

definition env_upgraded :: env where
  "env_upgraded =
     \<lparr>respond = (\<lambda>i q. Resp (ServiceDoc (svc_doc (if i = 0 then ''upgrading'' else ''upgraded'')))),
      latency = (\<lambda>i. 0), cmd_fails = (\<lambda>c a. False)\<rparr>"




text \<open>A template expansion that takes every replacement text literally.\<close>

definition literal :: "string \<Rightarrow> string \<Rightarrow> string" where
  "literal template matched = template"

text \<open>
  A full successful upgrade: the service is \<open>active\<close> with an upgrade link, reports
  \<open>upgraded\<close> at the first poll after the upgrade request, and is \<open>active\<close> again at the
  first poll after the finish request.
\<close>

definition env_upgrade :: env where
  "env_upgrade =
     \<lparr>respond = (\<lambda>i q. case q of
          GET u \<Rightarrow> Resp (ServiceDoc (svc_doc
                     (if i < 3 then ''active'' else if i < 5 then ''upgraded'' else ''active'')))
        | POST u p \<Rightarrow> Resp (ServiceDoc (svc_doc ''upgrading''))),
      latency = (\<lambda>i. 0), cmd_fails = (\<lambda>c a. False)\<rparr>"

text \<open>The service is in the middle of an upgrade and offers no action.\<close>

definition env_busy :: env where
  "env_busy =
     \<lparr>respond = (\<lambda>i q. Resp (ServiceDoc ((svc_doc ''upgrading'')\<lparr>Actions := zeroActions\<rparr>))),
      latency = (\<lambda>i. 0), cmd_fails = (\<lambda>c a. False)\<rparr>"

text \<open>
  The service stays in \<open>upgrading\<close> for the first two fetches and is \<open>upgraded\<close> from
  the third on.
\<close>

definition env_late :: env where
  "env_late =
     \<lparr>respond = (\<lambda>i q. Resp (ServiceDoc (svc_doc (if i < 2 then ''upgrading'' else ''upgraded'')))),
      latency = (\<lambda>i. 0), cmd_fails = (\<lambda>c a. False)\<rparr>"

text \<open>The configuration with a timeout of one second.\<close>

definition cfg1 :: Config where
  "cfg1 = cfg0\<lparr>UpgradeWaitTimeout := 1\<rparr>"

section \<open>Basic facts about the world\<close>

lemma Decode_Service_snapshot:
  "Decode_Service b w = ((s, e), w') \<Longrightarrow> snapshot w' s = doc_of b"
  apply (cases b)
  apply (auto simp: Decode_Service_def snapshot_def doc_of_def alloc_def deref_def Marshal_def zeroService_def split: option.splits prod.splits)
  done

lemma Decode_Service_world:
  "Decode_Service b w = ((s, e), w') \<Longrightarrow>
     clock w' = clock w \<and> nreq w' = nreq w \<and> trace w' = trace w \<and> logs w' = logs w
     \<and> nalloc w \<le> nalloc w' \<and> (\<forall>a<nalloc w. heap w' a = heap w a)"
  apply (cases b)
  apply (auto simp: Decode_Service_def alloc_def split: option.splits prod.splits)
  done

lemma Decode_Service_State:
  "Decode_Service b w = ((s, e), w') \<Longrightarrow> State s = State (doc_of b)"
  apply (cases b)
  apply (auto simp: Decode_Service_def doc_of_def alloc_def zeroService_def split: option.splits prod.splits)
  done

lemma WaitFor_loop_diverges_aux:
  assumes "WaitFor_loop E r D s w = Some y"
  shows "\<exists>i\<ge>nreq w. respond E i (GET (svcURL r)) \<noteq> NetErr"
proof (rule WaitFor_loop.raw_induct
    [where P = "\<lambda>E r D s w y. \<exists>i\<ge>nreq w. respond E i (GET (svcURL r)) \<noteq> NetErr", OF _ assms],
    goal_cases)
  case (1 f E r D s w y)
  show ?case
  proof (cases "respond E (nreq w) (GET (svcURL r))")
    case NetErr
    with 1(2) have "f E r D s (log (LogError NetError) (snd (Do E (GET (svcURL r)) w))) = Some y"
      by (simp add: Do_def)
    from 1(1)[OF this] show ?thesis
      by (auto simp: Do_def log_def intro: Suc_leD)
  next
    case (Resp b)
    then show ?thesis by (intro exI[of _ "nreq w"]) simp
  qed
qed


lemma WaitFor_loop_NetErr:
  "respond E (nreq w) (GET (svcURL r)) = NetErr \<Longrightarrow>
   WaitFor_loop E r D s w =
   WaitFor_loop E r D s (log (LogError NetError) (snd (Do E (GET (svcURL r)) w)))"
  by (subst WaitFor_loop.simps) (simp add: Do_def)

lemma WaitFor_loop_Resp:
  "respond E (nreq w) (GET (svcURL r)) = Resp b \<Longrightarrow>
   Decode_Service b (snd (Do E (GET (svcURL r)) w)) = ((sv, e), w2) \<Longrightarrow>
   WaitFor_loop E r D s w =
     (if State sv \<in> set D then Some ((Some sv, None), log (LogState (State sv)) w2)
      else if clock (time_Sleep (seconds (CheckInterval (cfg r))) (log (LogState (State sv)) w2)) - s
                > seconds (UpgradeWaitTimeout (cfg r))
      then Some ((Some sv, Some TimedOut),
                 log (LogTimedOut D) (time_Sleep (seconds (CheckInterval (cfg r))) (log (LogState (State sv)) w2)))
      else WaitFor_loop E r D s (time_Sleep (seconds (CheckInterval (cfg r))) (log (LogState (State sv)) w2)))"
  by (subst WaitFor_loop.simps) (simp add: Do_def Let_def)

lemma WaitFor_loop_induct [consumes 1, case_names NetErr Match Timeout Continue]:
  assumes ret: "WaitFor_loop E r D s w = Some y"
  assumes neterr: "\<And>w. respond E (nreq w) (GET (svcURL r)) = NetErr \<Longrightarrow>
      P (log (LogError NetError) (snd (Do E (GET (svcURL r)) w))) \<Longrightarrow> P w"
  assumes match: "\<And>w b sv e w2. respond E (nreq w) (GET (svcURL r)) = Resp b \<Longrightarrow>
      Decode_Service b (snd (Do E (GET (svcURL r)) w)) = ((sv, e), w2) \<Longrightarrow>
      State sv \<in> set D \<Longrightarrow> y = ((Some sv, None), log (LogState (State sv)) w2) \<Longrightarrow> P w"
  assumes timeout: "\<And>w b sv e w2 w4. respond E (nreq w) (GET (svcURL r)) = Resp b \<Longrightarrow>
      Decode_Service b (snd (Do E (GET (svcURL r)) w)) = ((sv, e), w2) \<Longrightarrow>
      State sv \<notin> set D \<Longrightarrow>
      w4 = time_Sleep (seconds (CheckInterval (cfg r))) (log (LogState (State sv)) w2) \<Longrightarrow>
      clock w4 - s > seconds (UpgradeWaitTimeout (cfg r)) \<Longrightarrow>
      y = ((Some sv, Some TimedOut), log (LogTimedOut D) w4) \<Longrightarrow> P w"
  assumes continue: "\<And>w b sv e w2 w4. respond E (nreq w) (GET (svcURL r)) = Resp b \<Longrightarrow>
      Decode_Service b (snd (Do E (GET (svcURL r)) w)) = ((sv, e), w2) \<Longrightarrow>
      State sv \<notin> set D \<Longrightarrow>
      w4 = time_Sleep (seconds (CheckInterval (cfg r))) (log (LogState (State sv)) w2) \<Longrightarrow>
      \<not> clock w4 - s > seconds (UpgradeWaitTimeout (cfg r)) \<Longrightarrow>
      P w4 \<Longrightarrow> P w"
  shows "P w"
proof -
  have "E' = E \<longrightarrow> r' = r \<longrightarrow> D' = D \<longrightarrow> s' = s \<longrightarrow> y' = y \<longrightarrow> P w'"
    if "WaitFor_loop E' r' D' s' w' = Some y'" for E' r' D' s' w' y'
  proof (rule WaitFor_loop.raw_induct
      [where P = "\<lambda>E' r' D' s' w' y'. E' = E \<longrightarrow> r' = r \<longrightarrow> D' = D \<longrightarrow> s' = s \<longrightarrow> y' = y \<longrightarrow> P w'", OF _ that],
      goal_cases)
    case (1 f E' r' D' s' w y')
    show ?case
    proof (intro impI)
      assume eq: "E' = E" "r' = r" "D' = D" "s' = s" "y' = y"
      note body = 1(2)[unfolded eq]
      note IH = 1(1)[of E r D s _ y, simplified]
      show "P w"
      proof (cases "respond E (nreq w) (GET (svcURL r))")
        case NetErr
        with body have "f E r D s (log (LogError NetError) (snd (Do E (GET (svcURL r)) w))) = Some y"
          by (simp add: Do_def)
        from neterr[OF NetErr IH[OF this]] show ?thesis .
      next
        case (Resp b)
        obtain sv e w2 where dec: "Decode_Service b (snd (Do E (GET (svcURL r)) w)) = ((sv, e), w2)"
          by (metis prod.exhaust)
        define w4 where "w4 = time_Sleep (seconds (CheckInterval (cfg r))) (log (LogState (State sv)) w2)"
        from body Resp dec have body':
          "(if State sv \<in> set D then Some ((Some sv, None), log (LogState (State sv)) w2)
            else if clock w4 - s > seconds (UpgradeWaitTimeout (cfg r))
                 then Some ((Some sv, Some TimedOut), log (LogTimedOut D) w4)
                 else f E r D s w4) = Some y"
          by (auto simp: Do_def Let_def w4_def split: if_splits)
        show ?thesis
        proof (cases "State sv \<in> set D")
          case True
          with body' show ?thesis by (intro match[OF Resp dec True]) simp
        next
          case False
          show ?thesis
          proof (cases "clock w4 - s > seconds (UpgradeWaitTimeout (cfg r))")
            case True
            with body' False show ?thesis by (intro timeout[OF Resp dec False w4_def True]) simp
          next
            case nt: False
            with body' False have "f E r D s w4 = Some y" by simp
            from continue[OF Resp dec False w4_def nt IH[OF this]] show ?thesis .
          qed
        qed
      qed
    qed
  qed
  from this[OF ret] show ?thesis by simp
qed


lemma log_simps:
  "clock (log m w) = clock w" "nreq (log m w) = nreq w" "trace (log m w) = trace w"
  "heap (log m w) = heap w" "nalloc (log m w) = nalloc w" "logs (log m w) = logs w @ [m]"
  by (simp_all add: log_def)

lemma time_Sleep_simps:
  "clock (time_Sleep d w) = clock w + max 0 d" "nreq (time_Sleep d w) = nreq w"
  "trace (time_Sleep d w) = trace w @ [Slept d]"
  "heap (time_Sleep d w) = heap w" "nalloc (time_Sleep d w) = nalloc w"
  "logs (time_Sleep d w) = logs w"
  by (simp_all add: time_Sleep_def)

lemma Do_simps:
  "fst (Do E q w) = respond E (nreq w) q"
  "clock (snd (Do E q w)) = clock w + int (latency E (nreq w))"
  "nreq (snd (Do E q w)) = Suc (nreq w)"
  "trace (snd (Do E q w)) = trace w @ [Req q]"
  "heap (snd (Do E q w)) = heap w" "nalloc (snd (Do E q w)) = nalloc w"
  "logs (snd (Do E q w)) = logs w"
  by (simp_all add: Do_def)

lemma snapshot_heap: "heap w' = heap w \<Longrightarrow> snapshot w' s = snapshot w s"
  by (simp add: snapshot_def deref_def Marshal_def)

lemma WaitFor_loop_result:
  assumes "WaitFor_loop E r D s w = Some ((svc, err), w')"
  shows "(\<exists>sv b. svc = Some sv \<and> respond E (nreq w' - 1) (GET (svcURL r)) = Resp b
            \<and> snapshot w' sv = doc_of b
            \<and> (err = None \<longrightarrow> State sv \<in> set D \<and> last (trace w') = Req (GET (svcURL r)))
            \<and> (err \<noteq> None \<longrightarrow> err = Some TimedOut \<and> State sv \<notin> set D
                  \<and> seconds (UpgradeWaitTimeout (cfg r)) < clock w' - s))
         \<and> nreq w < nreq w'
         \<and> (\<exists>t. trace w' = trace w @ t \<and> t \<noteq> []
                \<and> set t \<subseteq> insert (Req (GET (svcURL r))) (range Slept))
         \<and> nalloc w \<le> nalloc w' \<and> (\<forall>a<nalloc w. heap w' a = heap w a)"
  using assms
proof (induction rule: WaitFor_loop_induct)
  case (NetErr w)
  then show ?case
    by (auto simp: log_simps Do_simps)
next
  case (Match w b sv e w2)
  from Decode_Service_world[OF Match(2)] Decode_Service_snapshot[OF Match(2)] Match(1,3,4)
  show ?case
    by (auto simp: log_simps Do_simps snapshot_heap[of "log _ _"])
next
  case (Timeout w b sv e w2 w4)
  from Decode_Service_world[OF Timeout(2)] Decode_Service_snapshot[OF Timeout(2)] Timeout(1,3,4,5,6)
  show ?case
    by (auto simp: log_simps Do_simps time_Sleep_simps
        snapshot_heap[of "log _ (time_Sleep _ (log _ _))" w2])
next
  case (Continue w b sv e w2 w4)
  from Decode_Service_world[OF Continue(2)] Continue(1,3,4,5,6)
  show ?case
    by (auto simp: log_simps Do_simps time_Sleep_simps)
qed


lemma WaitFor_loop_diverges:
  "\<forall>i\<ge>nreq w. respond E i (GET (svcURL r)) = NetErr \<Longrightarrow> WaitFor_loop E r D s w = None"
  using WaitFor_loop_diverges_aux[of E r D s w] by (cases "WaitFor_loop E r D s w") auto

lemma WaitFor_loop_skip:
  assumes "\<forall>j<k. respond E (nreq w + j) (GET (svcURL r)) = NetErr"
  shows "\<exists>w1. WaitFor_loop E r D s w = WaitFor_loop E r D s w1 \<and> nreq w1 = nreq w + k
            \<and> clock w \<le> clock w1"
  using assms
proof (induction k arbitrary: w)
  case 0
  then show ?case by (intro exI[of _ w]) simp
next
  case (Suc k)
  let ?w = "log (LogError NetError) (snd (Do E (GET (svcURL r)) w))"
  from Suc.prems have here: "respond E (nreq w) (GET (svcURL r)) = NetErr"
    by (metis add.right_neutral zero_less_Suc)
  have "\<forall>j<k. respond E (nreq ?w + j) (GET (svcURL r)) = NetErr"
    using Suc.prems by (auto simp: log_simps Do_simps dest: spec[of _ "Suc _"])
  from Suc.IH[OF this] obtain w1 where
    "WaitFor_loop E r D s ?w = WaitFor_loop E r D s w1" "nreq w1 = nreq ?w + k" "clock ?w \<le> clock w1"
    by blast
  then show ?case
    using WaitFor_loop_NetErr[OF here, of D s]
    by (intro exI[of _ w1]) (auto simp: log_simps Do_simps)
qed

lemma WaitFor_loop_returns:
  assumes iv: "0 < seconds (CheckInterval (cfg r)) \<or> (\<forall>i. 0 < latency E i)"
    and live: "\<forall>i. \<exists>j\<ge>i. respond E j (GET (svcURL r)) \<noteq> NetErr"
  shows "\<exists>y. WaitFor_loop E r D s w = Some y"
proof (induction "nat (seconds (UpgradeWaitTimeout (cfg r)) - (clock w - s))" arbitrary: w
    rule: less_induct)
  case less
  from live obtain j where j: "j \<ge> nreq w" "respond E j (GET (svcURL r)) \<noteq> NetErr" by blast
  define k where "k = (LEAST k. respond E (nreq w + k) (GET (svcURL r)) \<noteq> NetErr)"
  have "respond E (nreq w + (j - nreq w)) (GET (svcURL r)) \<noteq> NetErr" using j by simp
  then have ok: "respond E (nreq w + k) (GET (svcURL r)) \<noteq> NetErr"
    unfolding k_def by (rule LeastI)
  have "\<forall>j<k. respond E (nreq w + j) (GET (svcURL r)) = NetErr"
    unfolding k_def using not_less_Least by blast
  from WaitFor_loop_skip[OF this, of D s] obtain w1 where
    w1: "WaitFor_loop E r D s w = WaitFor_loop E r D s w1" "nreq w1 = nreq w + k" "clock w \<le> clock w1"
    by blast
  from ok w1(2) obtain b where b: "respond E (nreq w1) (GET (svcURL r)) = Resp b"
    by (cases "respond E (nreq w1) (GET (svcURL r))") auto
  obtain sv e w2 where dec: "Decode_Service b (snd (Do E (GET (svcURL r)) w1)) = ((sv, e), w2)"
    by (metis prod.exhaust)
  define w4 where "w4 = time_Sleep (seconds (CheckInterval (cfg r))) (log (LogState (State sv)) w2)"
  have "0 < int (latency E (nreq w1)) + max 0 (seconds (CheckInterval (cfg r)))"
    using iv by (auto simp: add_pos_nonneg)
  then have c4: "clock w4 > clock w"
    using Decode_Service_world[OF dec] w1(3)
    by (simp add: w4_def time_Sleep_simps log_simps Do_simps)
  show ?case
  proof (cases "State sv \<in> set D \<or> clock w4 - s > seconds (UpgradeWaitTimeout (cfg r))")
    case True
    then show ?thesis
      unfolding w1(1) WaitFor_loop_Resp[OF b dec] w4_def by auto
  next
    case False
    then have "nat (seconds (UpgradeWaitTimeout (cfg r)) - (clock w4 - s))
             < nat (seconds (UpgradeWaitTimeout (cfg r)) - (clock w - s))"
      using c4 by linarith
    from less[OF this] False show ?thesis
      unfolding w1(1) WaitFor_loop_Resp[OF b dec] w4_def by auto
  qed
qed


lemma elapsed_after_0:
  "elapsed_after E r n 0 = int (latency E n) +
     (if respond E n (GET (svcURL r)) = NetErr then 0 else max 0 (seconds (CheckInterval (cfg r))))"
  by (simp add: elapsed_after_def)

lemma elapsed_after_Suc:
  "elapsed_after E r n (Suc j) = elapsed_after E r n 0 + elapsed_after E r (Suc n) j"
  by (simp add: elapsed_after_def sum.atMost_Suc_shift del: sum.atMost_Suc)

lemma WaitFor_loop_match:
  assumes "respond E (nreq w + k) (GET (svcURL r)) = Resp b"
    and "State (doc_of b) \<in> set D"
    and "\<forall>j<k. \<forall>b'. respond E (nreq w + j) (GET (svcURL r)) = Resp b' \<longrightarrow>
           State (doc_of b') \<notin> set D \<and>
           (clock w - s) + elapsed_after E r (nreq w) j \<le> seconds (UpgradeWaitTimeout (cfg r))"
  shows "\<exists>sv w'. WaitFor_loop E r D s w = Some ((Some sv, None), w') \<and> nreq w' = nreq w + k + 1"
  using assms
proof (induction k arbitrary: w)
  case 0
  then have b: "respond E (nreq w) (GET (svcURL r)) = Resp b" by simp
  obtain sv e w2 where dec: "Decode_Service b (snd (Do E (GET (svcURL r)) w)) = ((sv, e), w2)"
    by (metis prod.exhaust)
  from Decode_Service_State[OF dec] 0(2) have "State sv \<in> set D" by simp
  then show ?case
    using Decode_Service_world[OF dec]
    unfolding WaitFor_loop_Resp[OF b dec] by (simp add: log_simps Do_simps)
next
  case (Suc k)
  show ?case
  proof (cases "respond E (nreq w) (GET (svcURL r))")
    case NetErr
    let ?w = "log (LogError NetError) (snd (Do E (GET (svcURL r)) w))"
    have n: "nreq ?w = Suc (nreq w)" and c: "clock ?w = clock w + int (latency E (nreq w))"
      by (simp_all add: log_simps Do_simps)
    have 1: "respond E (nreq ?w + k) (GET (svcURL r)) = Resp b"
      using Suc.prems(1) by (simp add: n)
    have 2: "\<forall>j<k. \<forall>b'. respond E (nreq ?w + j) (GET (svcURL r)) = Resp b' \<longrightarrow>
           State (doc_of b') \<notin> set D \<and>
           (clock ?w - s) + elapsed_after E r (nreq ?w) j \<le> seconds (UpgradeWaitTimeout (cfg r))"
    proof (intro allI impI)
      fix j b' assume "j < k" "respond E (nreq ?w + j) (GET (svcURL r)) = Resp b'"
      with Suc.prems(3)[rule_format, of "Suc j" b']
      show "State (doc_of b') \<notin> set D \<and>
           (clock ?w - s) + elapsed_after E r (nreq ?w) j \<le> seconds (UpgradeWaitTimeout (cfg r))"
        by (simp add: n c elapsed_after_Suc elapsed_after_0 NetErr)
    qed
    from Suc.IH[OF 1 Suc.prems(2) 2] show ?thesis
      unfolding WaitFor_loop_NetErr[OF NetErr] by (simp add: n)
  next
    case (Resp b0)
    obtain sv e w2 where dec: "Decode_Service b0 (snd (Do E (GET (svcURL r)) w)) = ((sv, e), w2)"
      by (metis prod.exhaust)
    let ?w = "time_Sleep (seconds (CheckInterval (cfg r))) (log (LogState (State sv)) w2)"
    from Suc.prems(3)[rule_format, of 0 b0] Resp
    have nd: "State (doc_of b0) \<notin> set D"
      and el: "(clock w - s) + elapsed_after E r (nreq w) 0 \<le> seconds (UpgradeWaitTimeout (cfg r))"
      by simp_all
    have n: "nreq ?w = Suc (nreq w)"
      and c: "clock ?w = clock w + int (latency E (nreq w)) + max 0 (seconds (CheckInterval (cfg r)))"
      using Decode_Service_world[OF dec] by (simp_all add: log_simps Do_simps time_Sleep_simps)
    have nt: "\<not> clock ?w - s > seconds (UpgradeWaitTimeout (cfg r))"
      using el by (simp add: c elapsed_after_0 Resp)
    have nm: "State sv \<notin> set D" using nd Decode_Service_State[OF dec] by simp
    have 1: "respond E (nreq ?w + k) (GET (svcURL r)) = Resp b"
      using Suc.prems(1) by (simp add: n)
    have 2: "\<forall>j<k. \<forall>b'. respond E (nreq ?w + j) (GET (svcURL r)) = Resp b' \<longrightarrow>
           State (doc_of b') \<notin> set D \<and>
           (clock ?w - s) + elapsed_after E r (nreq ?w) j \<le> seconds (UpgradeWaitTimeout (cfg r))"
    proof (intro allI impI)
      fix j b' assume "j < k" "respond E (nreq ?w + j) (GET (svcURL r)) = Resp b'"
      with Suc.prems(3)[rule_format, of "Suc j" b']
      show "State (doc_of b') \<notin> set D \<and>
           (clock ?w - s) + elapsed_after E r (nreq ?w) j \<le> seconds (UpgradeWaitTimeout (cfg r))"
        by (simp add: n c elapsed_after_Suc elapsed_after_0 Resp)
    qed
    from Suc.IH[OF 1 Suc.prems(2) 2] nm nt show ?thesis
      unfolding WaitFor_loop_Resp[OF Resp dec] by (simp add: n)
  qed
qed

lemma New_cfg0 [simp]: "svcURL (New cfg0) = url0" "cfg (New cfg0) = cfg0"
  by (simp_all add: New_def cfg0_def url0_def)

lemma WaitFor_result:
  assumes "WaitFor E r D w = Some ((svc, err), w')"
  shows "(\<exists>sv b. svc = Some sv \<and> respond E (nreq w' - 1) (GET (svcURL r)) = Resp b
            \<and> snapshot w' sv = doc_of b
            \<and> (err = None \<longrightarrow> State sv \<in> set D \<and> last (trace w') = Req (GET (svcURL r)))
            \<and> (err \<noteq> None \<longrightarrow> err = Some TimedOut \<and> State sv \<notin> set D
                  \<and> seconds (UpgradeWaitTimeout (cfg r)) < clock w' - clock w))
         \<and> nreq w < nreq w'
         \<and> (\<exists>t. trace w' = trace w @ t \<and> t \<noteq> []
                \<and> set t \<subseteq> insert (Req (GET (svcURL r))) (range Slept))
         \<and> nalloc w \<le> nalloc w' \<and> (\<forall>a<nalloc w. heap w' a = heap w a)"
  using WaitFor_loop_result[OF assms[unfolded WaitFor_def]] by (simp add: log_simps)

lemma snapshot_State: "State (snapshot w s) = State s"
  by (simp add: snapshot_def)

lemma WaitFor_returns_aux:
  assumes "0 < seconds (CheckInterval (cfg r)) \<or> (\<forall>i. 0 < latency E i)"
    and "\<forall>i. \<exists>j\<ge>i. respond E j (GET (svcURL r)) \<noteq> NetErr"
  shows "\<exists>svc err w'. WaitFor E r D w = Some ((svc, err), w')"
  using WaitFor_loop_returns[OF assms, of D "clock w" "log (LogWaiting D) w"]
  by (auto simp: WaitFor_def)

lemma WaitFor_never_aux:
  assumes "0 < seconds (CheckInterval (cfg r)) \<or> (\<forall>i. 0 < latency E i)"
    and "\<forall>i. \<exists>j\<ge>i. respond E j (GET (svcURL r)) \<noteq> NetErr"
    and "\<forall>i\<ge>nreq w. \<forall>b. respond E i (GET (svcURL r)) = Resp b \<longrightarrow> State (doc_of b) \<notin> set D"
  shows "\<exists>sv b w'. WaitFor E r D w = Some ((Some sv, Some TimedOut), w')
           \<and> respond E (nreq w' - 1) (GET (svcURL r)) = Resp b \<and> snapshot w' sv = doc_of b
           \<and> seconds (UpgradeWaitTimeout (cfg r)) < clock w' - clock w"
proof -
  from WaitFor_returns_aux[OF assms(1,2)] obtain svc err w' where
    ret: "WaitFor E r D w = Some ((svc, err), w')" by blast
  from WaitFor_result[OF ret] obtain sv b where
    sv: "svc = Some sv" "respond E (nreq w' - 1) (GET (svcURL r)) = Resp b" "snapshot w' sv = doc_of b"
      "err = None \<longrightarrow> State sv \<in> set D"
      "err \<noteq> None \<longrightarrow> err = Some TimedOut \<and> seconds (UpgradeWaitTimeout (cfg r)) < clock w' - clock w"
    and n: "nreq w < nreq w'"
    by blast
  have "State sv = State (doc_of b)" using sv(3) snapshot_State[of w' sv] by simp
  moreover have "nreq w \<le> nreq w' - 1" using n by simp
  from assms(3)[rule_format, OF this sv(2)] have "State (doc_of b) \<notin> set D" .
  ultimately have "err \<noteq> None" using sv(4) by auto
  with sv ret show ?thesis by auto
qed

lemma WaitFor_match_aux:
  assumes "respond E (nreq w + k) (GET (svcURL r)) = Resp b"
    and "State (doc_of b) \<in> set D"
    and "\<forall>j<k. \<forall>b'. respond E (nreq w + j) (GET (svcURL r)) = Resp b' \<longrightarrow>
           State (doc_of b') \<notin> set D \<and>
           elapsed_after E r (nreq w) j \<le> seconds (UpgradeWaitTimeout (cfg r))"
  shows "\<exists>sv w'. WaitFor E r D w = Some ((Some sv, None), w') \<and> snapshot w' sv = doc_of b
           \<and> State sv \<in> set D \<and> nreq w' = nreq w + k + 1
           \<and> last (trace w') = Req (GET (svcURL r))"
proof -
  from WaitFor_loop_match[of E "log (LogWaiting D) w" k r b D "clock w"] assms
  obtain sv w' where ret: "WaitFor E r D w = Some ((Some sv, None), w')" and n: "nreq w' = nreq w + k + 1"
    by (auto simp: WaitFor_def log_simps)
  from WaitFor_result[OF ret] n assms(1) ret show ?thesis by auto
qed


lemma seconds_cfg0 [simp]:
  "seconds (CheckInterval cfg0) = 1000000000" "seconds (UpgradeWaitTimeout cfg0) = 3600000000000"
  by (simp_all add: seconds_def cfg0_def)

lemma WaitFor_loop_decided:
  assumes "respond E (nreq w + k) (GET (svcURL r)) = Resp b"
    and "\<forall>j<k. \<forall>b'. respond E (nreq w + j) (GET (svcURL r)) = Resp b' \<longrightarrow>
           State (doc_of b') \<notin> set D \<and>
           (clock w - s) + elapsed_after E r (nreq w) j \<le> seconds (UpgradeWaitTimeout (cfg r))"
    and "State (doc_of b) \<in> set D \<or>
         seconds (UpgradeWaitTimeout (cfg r)) < (clock w - s) + elapsed_after E r (nreq w) k"
  shows "\<exists>sv w'. WaitFor_loop E r D s w =
             Some ((Some sv, if State (doc_of b) \<in> set D then None else Some TimedOut), w')
           \<and> nreq w' = nreq w + k + 1
           \<and> trace w' = trace w @ poll_events E r (nreq w) k @
                (if State (doc_of b) \<in> set D then [Req (GET (svcURL r))]
                 else [Req (GET (svcURL r)), Slept (seconds (CheckInterval (cfg r)))])
           \<and> clock w' - s = (clock w - s) + elapsed_after E r (nreq w) k
                - (if State (doc_of b) \<in> set D then max 0 (seconds (CheckInterval (cfg r))) else 0)"
  using assms
proof (induction k arbitrary: w)
  case 0
  then have b: "respond E (nreq w) (GET (svcURL r)) = Resp b" by simp
  obtain sv e w2 where dec: "Decode_Service b (snd (Do E (GET (svcURL r)) w)) = ((sv, e), w2)"
    by (metis prod.exhaust)
  note st = Decode_Service_State[OF dec] and wd = Decode_Service_world[OF dec]
  show ?case
  proof (cases "State (doc_of b) \<in> set D")
    case True
    with st wd show ?thesis
      unfolding WaitFor_loop_Resp[OF b dec]
      by (simp add: log_simps Do_simps elapsed_after_0 b)
  next
    case False
    with 0(3) have "seconds (UpgradeWaitTimeout (cfg r)) < (clock w - s) + elapsed_after E r (nreq w) 0"
      by simp
    with False st wd show ?thesis
      unfolding WaitFor_loop_Resp[OF b dec]
      by (simp add: log_simps Do_simps time_Sleep_simps elapsed_after_0 b)
  qed
next
  case (Suc k)
  show ?case
  proof (cases "respond E (nreq w) (GET (svcURL r))")
    case NetErr
    let ?w = "log (LogError NetError) (snd (Do E (GET (svcURL r)) w))"
    have n: "nreq ?w = Suc (nreq w)" and c: "clock ?w = clock w + int (latency E (nreq w))"
      and t: "trace ?w = trace w @ [Req (GET (svcURL r))]"
      by (simp_all add: log_simps Do_simps)
    have 1: "respond E (nreq ?w + k) (GET (svcURL r)) = Resp b"
      using Suc.prems(1) by (simp add: n)
    have 2: "\<forall>j<k. \<forall>b'. respond E (nreq ?w + j) (GET (svcURL r)) = Resp b' \<longrightarrow>
           State (doc_of b') \<notin> set D \<and>
           (clock ?w - s) + elapsed_after E r (nreq ?w) j \<le> seconds (UpgradeWaitTimeout (cfg r))"
    proof (intro allI impI)
      fix j b' assume "j < k" "respond E (nreq ?w + j) (GET (svcURL r)) = Resp b'"
      with Suc.prems(2)[rule_format, of "Suc j" b']
      show "State (doc_of b') \<notin> set D \<and>
           (clock ?w - s) + elapsed_after E r (nreq ?w) j \<le> seconds (UpgradeWaitTimeout (cfg r))"
        by (simp add: n c elapsed_after_Suc elapsed_after_0 NetErr)
    qed
    have 3: "State (doc_of b) \<in> set D \<or>
         seconds (UpgradeWaitTimeout (cfg r)) < (clock ?w - s) + elapsed_after E r (nreq ?w) k"
      using Suc.prems(3) by (auto simp: n c elapsed_after_Suc elapsed_after_0 NetErr)
    from Suc.IH[OF 1 2 3] show ?thesis
      unfolding WaitFor_loop_NetErr[OF NetErr]
      by (simp add: n c t elapsed_after_Suc elapsed_after_0 NetErr)
  next
    case (Resp b0)
    obtain sv e w2 where dec: "Decode_Service b0 (snd (Do E (GET (svcURL r)) w)) = ((sv, e), w2)"
      by (metis prod.exhaust)
    let ?w = "time_Sleep (seconds (CheckInterval (cfg r))) (log (LogState (State sv)) w2)"
    from Suc.prems(2)[rule_format, of 0 b0] Resp
    have nd: "State (doc_of b0) \<notin> set D"
      and el: "(clock w - s) + elapsed_after E r (nreq w) 0 \<le> seconds (UpgradeWaitTimeout (cfg r))"
      by simp_all
    have n: "nreq ?w = Suc (nreq w)"
      and c: "clock ?w = clock w + int (latency E (nreq w)) + max 0 (seconds (CheckInterval (cfg r)))"
      and t: "trace ?w = trace w @ [Req (GET (svcURL r)), Slept (seconds (CheckInterval (cfg r)))]"
      using Decode_Service_world[OF dec] by (simp_all add: log_simps Do_simps time_Sleep_simps)
    have nt: "\<not> clock ?w - s > seconds (UpgradeWaitTimeout (cfg r))"
      using el by (simp add: c elapsed_after_0 Resp)
    have nm: "State sv \<notin> set D" using nd Decode_Service_State[OF dec] by simp
    have 1: "respond E (nreq ?w + k) (GET (svcURL r)) = Resp b"
      using Suc.prems(1) by (simp add: n)
    have 2: "\<forall>j<k. \<forall>b'. respond E (nreq ?w + j) (GET (svcURL r)) = Resp b' \<longrightarrow>
           State (doc_of b') \<notin> set D \<and>
           (clock ?w - s) + elapsed_after E r (nreq ?w) j \<le> seconds (UpgradeWaitTimeout (cfg r))"
    proof (intro allI impI)
      fix j b' assume "j < k" "respond E (nreq ?w + j) (GET (svcURL r)) = Resp b'"
      with Suc.prems(2)[rule_format, of "Suc j" b']
      show "State (doc_of b') \<notin> set D \<and>
           (clock ?w - s) + elapsed_after E r (nreq ?w) j \<le> seconds (UpgradeWaitTimeout (cfg r))"
        by (simp add: n c elapsed_after_Suc elapsed_after_0 Resp)
    qed
    have 3: "State (doc_of b) \<in> set D \<or>
         seconds (UpgradeWaitTimeout (cfg r)) < (clock ?w - s) + elapsed_after E r (nreq ?w) k"
      using Suc.prems(3) by (auto simp: n c elapsed_after_Suc elapsed_after_0 Resp)
    from Suc.IH[OF 1 2 3] nm nt show ?thesis
      unfolding WaitFor_loop_Resp[OF Resp dec]
      by (simp add: n c t elapsed_after_Suc elapsed_after_0 Resp)
  qed
qed

lemma WaitFor_loop_decisive:
  assumes "WaitFor_loop E r D s w = Some y"
  shows "\<exists>k b. respond E (nreq w + k) (GET (svcURL r)) = Resp b
           \<and> (State (doc_of b) \<in> set D \<or>
               seconds (UpgradeWaitTimeout (cfg r)) < (clock w - s) + elapsed_after E r (nreq w) k)"
  using assms
proof (induction rule: WaitFor_loop_induct)
  case (NetErr w)
  let ?w = "log (LogError NetError) (snd (Do E (GET (svcURL r)) w))"
  have n: "nreq ?w = Suc (nreq w)" and c: "clock ?w = clock w + int (latency E (nreq w))"
    by (simp_all add: log_simps Do_simps)
  from NetErr(2) obtain k b where
    "respond E (nreq ?w + k) (GET (svcURL r)) = Resp b"
    "State (doc_of b) \<in> set D \<or>
       seconds (UpgradeWaitTimeout (cfg r)) < (clock ?w - s) + elapsed_after E r (nreq ?w) k"
    by blast
  then show ?case
    by (intro exI[of _ "Suc k"] exI[of _ b])
       (auto simp: n c elapsed_after_Suc elapsed_after_0 NetErr(1))
next
  case (Match w b sv e w2)
  from Decode_Service_State[OF Match(2)] Match(1,3) show ?case
    by (intro exI[of _ 0] exI[of _ b]) simp
next
  case (Timeout w b sv e w2 w4)
  from Decode_Service_world[OF Timeout(2)] Timeout(1,4,5) show ?case
    by (intro exI[of _ 0] exI[of _ b])
       (simp add: elapsed_after_0 log_simps Do_simps time_Sleep_simps)
next
  case (Continue w b sv e w2 w4)
  have n: "nreq w4 = Suc (nreq w)"
    and c: "clock w4 = clock w + int (latency E (nreq w)) + max 0 (seconds (CheckInterval (cfg r)))"
    using Decode_Service_world[OF Continue(2)] Continue(4)
    by (simp_all add: log_simps Do_simps time_Sleep_simps)
  from Continue(6) obtain k b' where
    "respond E (nreq w4 + k) (GET (svcURL r)) = Resp b'"
    "State (doc_of b') \<in> set D \<or>
       seconds (UpgradeWaitTimeout (cfg r)) < (clock w4 - s) + elapsed_after E r (nreq w4) k"
    by blast
  then show ?case
    by (intro exI[of _ "Suc k"] exI[of _ b'])
       (auto simp: n c elapsed_after_Suc elapsed_after_0 Continue(1))
qed


lemma decides_first:
  assumes "decides E r D n k"
  shows "\<exists>k'. decides E r D n k' \<and> (\<forall>j<k'. \<not> decides E r D n j)"
proof (intro exI conjI allI impI)
  show "decides E r D n (LEAST k. decides E r D n k)" using assms by (rule LeastI)
  fix j assume "j < (LEAST k. decides E r D n k)"
  then show "\<not> decides E r D n j" by (rule not_less_Least)
qed

lemma WaitFor_decided:
  assumes "decides E r D (nreq w) k" and "\<forall>j<k. \<not> decides E r D (nreq w) j"
  shows "\<exists>b sv w'. respond E (nreq w + k) (GET (svcURL r)) = Resp b
           \<and> WaitFor E r D w =
               Some ((Some sv, if State (doc_of b) \<in> set D then None else Some TimedOut), w')
           \<and> snapshot w' sv = doc_of b
           \<and> nreq w' = nreq w + k + 1
           \<and> trace w' = trace w @ poll_events E r (nreq w) k @
                (if State (doc_of b) \<in> set D then [Req (GET (svcURL r))]
                 else [Req (GET (svcURL r)), Slept (seconds (CheckInterval (cfg r)))])
           \<and> clock w' - clock w = elapsed_after E r (nreq w) k
                - (if State (doc_of b) \<in> set D then max 0 (seconds (CheckInterval (cfg r))) else 0)"
proof -
  let ?w = "log (LogWaiting D) w"
  from assms(1) obtain b where b: "respond E (nreq w + k) (GET (svcURL r)) = Resp b"
    and d: "State (doc_of b) \<in> set D \<or> seconds (UpgradeWaitTimeout (cfg r)) < elapsed_after E r (nreq w) k"
    by (auto simp: decides_def split: response.splits)
  have e: "\<forall>j<k. \<forall>b'. respond E (nreq ?w + j) (GET (svcURL r)) = Resp b' \<longrightarrow>
           State (doc_of b') \<notin> set D \<and>
           (clock ?w - clock w) + elapsed_after E r (nreq ?w) j \<le> seconds (UpgradeWaitTimeout (cfg r))"
    using assms(2) by (auto simp: decides_def log_simps split: response.splits)
  have b': "respond E (nreq ?w + k) (GET (svcURL r)) = Resp b" using b by (simp add: log_simps)
  have d': "State (doc_of b) \<in> set D \<or>
         seconds (UpgradeWaitTimeout (cfg r)) < (clock ?w - clock w) + elapsed_after E r (nreq ?w) k"
    using d by (simp add: log_simps)
  from WaitFor_loop_decided[OF b' e d'] obtain sv w' where
    ret: "WaitFor E r D w =
             Some ((Some sv, if State (doc_of b) \<in> set D then None else Some TimedOut), w')"
    and rest: "nreq w' = nreq w + k + 1"
      "trace w' = trace w @ poll_events E r (nreq w) k @
                (if State (doc_of b) \<in> set D then [Req (GET (svcURL r))]
                 else [Req (GET (svcURL r)), Slept (seconds (CheckInterval (cfg r)))])"
      "clock w' - clock w = elapsed_after E r (nreq w) k
                - (if State (doc_of b) \<in> set D then max 0 (seconds (CheckInterval (cfg r))) else 0)"
    by (auto simp: WaitFor_def log_simps)
  from WaitFor_result[OF ret] rest(1) b have "snapshot w' sv = doc_of b" by auto
  with b ret rest show ?thesis by blast
qed

lemma WaitFor_decisive:
  assumes "WaitFor E r D w = Some y"
  shows "\<exists>k. decides E r D (nreq w) k"
proof -
  from WaitFor_loop_decisive[OF assms[unfolded WaitFor_def]] obtain k b where
    "respond E (nreq w + k) (GET (svcURL r)) = Resp b"
    "State (doc_of b) \<in> set D \<or> seconds (UpgradeWaitTimeout (cfg r)) < elapsed_after E r (nreq w) k"
    by (auto simp: log_simps)
  then have "decides E r D (nreq w) k" by (simp add: decides_def)
  then show ?thesis ..
qed

lemma WaitFor_iff_decides:
  "WaitFor E r D w \<noteq> None \<longleftrightarrow> (\<exists>k. decides E r D (nreq w) k)"
proof
  assume "WaitFor E r D w \<noteq> None"
  then show "\<exists>k. decides E r D (nreq w) k" using WaitFor_decisive by blast
next
  assume "\<exists>k. decides E r D (nreq w) k"
  then obtain k where "decides E r D (nreq w) k" "\<forall>j<k. \<not> decides E r D (nreq w) j"
    using decides_first by blast
  from WaitFor_decided[OF this] show "WaitFor E r D w \<noteq> None" by auto
qed

lemma decides_exists:
  assumes "0 < seconds (CheckInterval (cfg r)) \<or> (\<forall>i. 0 < latency E i)"
    and "\<forall>i. \<exists>j\<ge>i. respond E j (GET (svcURL r)) \<noteq> NetErr"
  shows "\<exists>k. decides E r D (nreq (w::world)) k"
proof -
  from WaitFor_returns_aux[OF assms] obtain y where "WaitFor E r D w = Some y" by blast
  then show ?thesis by (rule WaitFor_decisive)
qed

lemma timeout_fetch_exists:
  assumes "0 < seconds (CheckInterval (cfg r)) \<or> (\<forall>i. 0 < latency E i)"
    and "\<forall>i. \<exists>j\<ge>i. respond E j (GET (svcURL r)) \<noteq> NetErr"
  shows "\<exists>k b. respond E (n + k) (GET (svcURL r)) = Resp b
           \<and> seconds (UpgradeWaitTimeout (cfg r)) < elapsed_after E r n k"
proof -
  define w :: world where
    "w = \<lparr>clock = 0, nreq = n, trace = [], logs = [], heap = (\<lambda>a. Map.empty), nalloc = 0\<rparr>"
  from decides_exists[OF assms] obtain k where "decides E r [] (nreq w) k" by blast
  then obtain b where "respond E (n + k) (GET (svcURL r)) = Resp b"
    "seconds (UpgradeWaitTimeout (cfg r)) < elapsed_after E r n k"
    by (cases "respond E (n + k) (GET (svcURL r))") (auto simp: decides_def w_def)
  then show ?thesis by blast
qed


lemma New_cfg1 [simp]: "svcURL (New cfg1) = url0" "cfg (New cfg1) = cfg1"
  by (simp_all add: New_def cfg1_def cfg0_def url0_def)

lemma seconds_cfg1 [simp]:
  "seconds (CheckInterval cfg1) = 1000000000" "seconds (UpgradeWaitTimeout cfg1) = 1000000000"
  by (simp_all add: seconds_def cfg1_def cfg0_def)

text \<open>
  Claim C1, amended. \<open>WaitFor\<close> returns exactly when some fetch is answered and either
  reports a desired state or finds, after the interval sleep that follows it, more
  than the timeout elapsed since the wait began; such a fetch exists whenever the
  check interval is positive or requests take time, and an answered fetch always
  occurs again. It then returns at the first such fetch, with the service that fetch
  decoded: with success when the state is a desired one, with \<open>TimedOut\<close> otherwise.
  Up to that fetch a failed fetch is followed by the next fetch at once and an
  answered one by the interval sleep, and the time the wait took is the time of its
  requests and sleeps. Failed fetches are not bounded by the timeout.
\<close>

theorem WaitFor_returns:
  "(WaitFor E r D w \<noteq> None \<longleftrightarrow> (\<exists>k. decides E r D (nreq w) k))
   \<and> ((0 < seconds (CheckInterval (cfg r)) \<or> (\<forall>i. 0 < latency E i))
        \<and> (\<forall>i. \<exists>j\<ge>i. respond E j (GET (svcURL r)) \<noteq> NetErr)
       \<longrightarrow> (\<exists>k. decides E r D (nreq w) k))
   \<and> (decides E r D (nreq w) k \<and> (\<forall>j<k. \<not> decides E r D (nreq w) j) \<longrightarrow>
        (\<exists>b sv w'. respond E (nreq w + k) (GET (svcURL r)) = Resp b
           \<and> WaitFor E r D w =
               Some ((Some sv, if State (doc_of b) \<in> set D then None else Some TimedOut), w')
           \<and> snapshot w' sv = doc_of b
           \<and> trace w' = trace w @ poll_events E r (nreq w) k @
                (if State (doc_of b) \<in> set D then [Req (GET (svcURL r))]
                 else [Req (GET (svcURL r)), Slept (seconds (CheckInterval (cfg r)))])
           \<and> clock w' - clock w = elapsed_after E r (nreq w) k
                - (if State (doc_of b) \<in> set D then max 0 (seconds (CheckInterval (cfg r))) else 0)))"
proof (intro conjI impI)
  show "WaitFor E r D w \<noteq> None \<longleftrightarrow> (\<exists>k. decides E r D (nreq w) k)"
    by (rule WaitFor_iff_decides)
next
  assume "(0 < seconds (CheckInterval (cfg r)) \<or> (\<forall>i. 0 < latency E i))
        \<and> (\<forall>i. \<exists>j\<ge>i. respond E j (GET (svcURL r)) \<noteq> NetErr)"
  then show "\<exists>k. decides E r D (nreq w) k" using decides_exists by blast
next
  assume "decides E r D (nreq w) k \<and> (\<forall>j<k. \<not> decides E r D (nreq w) j)"
  then have "decides E r D (nreq w) k" "\<forall>j<k. \<not> decides E r D (nreq w) j" by simp_all
  from WaitFor_decided[OF this] show
    "\<exists>b sv w'. respond E (nreq w + k) (GET (svcURL r)) = Resp b
           \<and> WaitFor E r D w =
               Some ((Some sv, if State (doc_of b) \<in> set D then None else Some TimedOut), w')
           \<and> snapshot w' sv = doc_of b
           \<and> trace w' = trace w @ poll_events E r (nreq w) k @
                (if State (doc_of b) \<in> set D then [Req (GET (svcURL r))]
                 else [Req (GET (svcURL r)), Slept (seconds (CheckInterval (cfg r)))])
           \<and> clock w' - clock w = elapsed_after E r (nreq w) k
                - (if State (doc_of b) \<in> set D then max 0 (seconds (CheckInterval (cfg r))) else 0)"
    by blast
qed

theorem WaitFor_returns_witness:
  "WaitFor env_stuck (New cfg1) [''upgraded''] w0 \<noteq> None
   \<and> (\<exists>sv w'. WaitFor env_stuck (New cfg1) [''upgraded''] w0 = Some ((Some sv, Some TimedOut), w')
        \<and> snapshot w' sv = svc_doc ''upgrading''
        \<and> trace w' = [Req (GET url0), Slept 1000000000, Req (GET url0), Slept 1000000000]
        \<and> clock w' - clock w0 = 2000000000)"
proof -
  let ?E = env_stuck and ?r = "New cfg1" and ?D = "[''upgraded'']"
  have 1: "decides ?E ?r ?D (nreq w0) 1"
    by (simp add: decides_def env_stuck_def elapsed_after_def)
  have 2: "\<forall>j<1. \<not> decides ?E ?r ?D (nreq w0) j"
    by (simp add: decides_def env_stuck_def elapsed_after_def doc_of_def svc_doc_def)
  have 3: "\<exists>k. decides ?E ?r ?D (nreq w0) k" using 1 by blast
  note inst = WaitFor_returns[of ?E ?r ?D w0 1]
  from inst 3 have A: "WaitFor ?E ?r ?D w0 \<noteq> None" by blast
  from inst 1 2 obtain b sv w' where
    b: "respond ?E (nreq w0 + 1) (GET (svcURL ?r)) = Resp b"
    and ret: "WaitFor ?E ?r ?D w0 =
               Some ((Some sv, if State (doc_of b) \<in> set ?D then None else Some TimedOut), w')"
      "snapshot w' sv = doc_of b"
      "trace w' = trace w0 @ poll_events ?E ?r (nreq w0) 1 @
                (if State (doc_of b) \<in> set ?D then [Req (GET (svcURL ?r))]
                 else [Req (GET (svcURL ?r)), Slept (seconds (CheckInterval (cfg ?r)))])"
      "clock w' - clock w0 = elapsed_after ?E ?r (nreq w0) 1
                - (if State (doc_of b) \<in> set ?D then max 0 (seconds (CheckInterval (cfg ?r))) else 0)"
    by blast
  from b have "b = ServiceDoc (svc_doc ''upgrading'')" by (simp add: env_stuck_def)
  then have d: "doc_of b = svc_doc ''upgrading''" "State (doc_of b) \<notin> set ?D"
    by (simp_all add: doc_of_def svc_doc_def)
  have p: "poll_events ?E ?r (nreq w0) 1 = [Req (GET url0), Slept 1000000000]"
    by (simp add: env_stuck_def)
  have e: "elapsed_after ?E ?r (nreq w0) 1 = 2000000000"
    by (simp add: elapsed_after_def env_stuck_def)
  from A ret[unfolded p e] d show ?thesis
    by (simp add: w0_def)
qed

text \<open>
  The claim as stated fails: when every fetch fails, each failure is retried at once,
  before the sleep and before the timeout is consulted, and \<open>WaitFor\<close> never returns,
  however much time the attempts take.
\<close>

theorem WaitFor_every_fetch_fails:
  "WaitFor env_down (New cfg0) [''upgraded''] w0 = None"
  unfolding WaitFor_def by (rule WaitFor_loop_diverges) (simp add: env_down_def)

text \<open>
  Claim C2, amended. When no answered fetch reports a state of \<open>D\<close> up to and including
  the first answered fetch after whose interval sleep more than the timeout has
  elapsed, \<open>WaitFor\<close> returns a \<open>TimedOut\<close> outcome at that fetch, with the service that
  fetch decoded, whatever the states reported later. The service \<open>WaitFor\<close> returns is
  never nil. Such a fetch exists whenever the check interval is positive or requests
  take time, and an answered fetch always occurs again.
\<close>

theorem WaitFor_timed_out:
  assumes "respond E (nreq w + k) (GET (svcURL r)) = Resp b"
    and "seconds (UpgradeWaitTimeout (cfg r)) < elapsed_after E r (nreq w) k"
    and "\<forall>j<k. \<forall>b'. respond E (nreq w + j) (GET (svcURL r)) = Resp b' \<longrightarrow>
           elapsed_after E r (nreq w) j \<le> seconds (UpgradeWaitTimeout (cfg r))"
    and "\<forall>j\<le>k. \<forall>b'. respond E (nreq w + j) (GET (svcURL r)) = Resp b' \<longrightarrow>
           State (doc_of b') \<notin> set D"
  shows "(\<exists>sv w'. WaitFor E r D w = Some ((Some sv, Some TimedOut), w')
            \<and> snapshot w' sv = doc_of b
            \<and> nreq w' = nreq w + k + 1
            \<and> trace w' = trace w @ poll_events E r (nreq w) k
                  @ [Req (GET (svcURL r)), Slept (seconds (CheckInterval (cfg r)))]
            \<and> clock w' - clock w = elapsed_after E r (nreq w) k)
       \<and> (\<forall>D' w1 e w2. WaitFor E r D' w1 \<noteq> Some ((None, e), w2))
       \<and> ((0 < seconds (CheckInterval (cfg r)) \<or> (\<forall>i. 0 < latency E i))
            \<and> (\<forall>i. \<exists>j\<ge>i. respond E j (GET (svcURL r)) \<noteq> NetErr)
           \<longrightarrow> (\<exists>k' b'. respond E (nreq w + k') (GET (svcURL r)) = Resp b'
                  \<and> seconds (UpgradeWaitTimeout (cfg r)) < elapsed_after E r (nreq w) k'))"
proof (intro conjI impI allI)
  have nd: "State (doc_of b) \<notin> set D" using assms(1,4) by auto
  have 1: "decides E r D (nreq w) k" using assms(1,2) by (simp add: decides_def)
  have 2: "\<forall>j<k. \<not> decides E r D (nreq w) j"
  proof (intro allI impI)
    fix j assume j: "j < k"
    then have "j \<le> k" by simp
    from assms(3)[rule_format, OF j] assms(4)[rule_format, OF this]
    show "\<not> decides E r D (nreq w) j"
      by (cases "respond E (nreq w + j) (GET (svcURL r))") (auto simp: decides_def)
  qed
  from WaitFor_decided[OF 1 2] assms(1) nd
  show "\<exists>sv w'. WaitFor E r D w = Some ((Some sv, Some TimedOut), w')
            \<and> snapshot w' sv = doc_of b
            \<and> nreq w' = nreq w + k + 1
            \<and> trace w' = trace w @ poll_events E r (nreq w) k
                  @ [Req (GET (svcURL r)), Slept (seconds (CheckInterval (cfg r)))]
            \<and> clock w' - clock w = elapsed_after E r (nreq w) k"
    by auto
next
  fix D' w1 e w2
  show "WaitFor E r D' w1 \<noteq> Some ((None, e), w2)"
    using WaitFor_result[of E r D' w1 None e w2] by auto
next
  assume "(0 < seconds (CheckInterval (cfg r)) \<or> (\<forall>i. 0 < latency E i))
            \<and> (\<forall>i. \<exists>j\<ge>i. respond E j (GET (svcURL r)) \<noteq> NetErr)"
  then show "\<exists>k' b'. respond E (nreq w + k') (GET (svcURL r)) = Resp b'
                  \<and> seconds (UpgradeWaitTimeout (cfg r)) < elapsed_after E r (nreq w) k'"
    using timeout_fetch_exists by blast
qed

theorem WaitFor_timed_out_witness:
  "\<exists>sv w'. WaitFor env_late (New cfg1) [''upgraded''] w0 = Some ((Some sv, Some TimedOut), w')
     \<and> snapshot w' sv = svc_doc ''upgrading''
     \<and> nreq w' = 2
     \<and> trace w' = [Req (GET url0), Slept 1000000000, Req (GET url0), Slept 1000000000]
     \<and> clock w' - clock w0 = 2000000000"
proof -
  let ?E = env_late and ?r = "New cfg1" and ?D = "[''upgraded'']"
  have 1: "respond ?E (nreq w0 + 1) (GET (svcURL ?r)) = Resp (ServiceDoc (svc_doc ''upgrading''))"
    by (simp add: env_late_def w0_def)
  have 2: "seconds (UpgradeWaitTimeout (cfg ?r)) < elapsed_after ?E ?r (nreq w0) 1"
    by (simp add: env_late_def elapsed_after_def)
  have 3: "\<forall>j<1. \<forall>b'. respond ?E (nreq w0 + j) (GET (svcURL ?r)) = Resp b' \<longrightarrow>
           elapsed_after ?E ?r (nreq w0) j \<le> seconds (UpgradeWaitTimeout (cfg ?r))"
    by (simp add: env_late_def elapsed_after_def)
  have 4: "\<forall>j\<le>1. \<forall>b'. respond ?E (nreq w0 + j) (GET (svcURL ?r)) = Resp b' \<longrightarrow>
           State (doc_of b') \<notin> set ?D"
    by (auto simp: env_late_def w0_def doc_of_def svc_doc_def)
  from WaitFor_timed_out[OF 1 2 3 4] show ?thesis
    by (auto simp: env_late_def w0_def doc_of_def elapsed_after_def)
qed

text \<open>
  The claim as stated fails: here the only state ever fetched is \<open>upgrading\<close>, the
  later fetches fail, and the ten seconds of the timeout pass during them; \<open>WaitFor\<close>
  returns neither the fetched service nor nil, it does not return.
\<close>

theorem WaitFor_fetches_stop_succeeding:
  "WaitFor env_once (New (cfg0\<lparr>UpgradeWaitTimeout := 10\<rparr>)) [''upgraded''] w0 = None"
  unfolding WaitFor_def
  apply (subst WaitFor_loop.simps)
  apply (simp add: Do_def log_def w0_def env_once_def Decode_Service_def alloc_def svc_doc_def
      time_Sleep_def seconds_def New_def cfg0_def Let_def)
  apply (rule WaitFor_loop_diverges)
  apply simp
  done

text \<open>
  Claim C3. For every call to \<open>WaitFor\<close> with desired states \<open>D\<close>: if the fetch number
  \<open>k\<close> after the call succeeds with a state in \<open>D\<close>, and every earlier successful fetch
  has a state outside \<open>D\<close> and leaves, after its interval sleep, no more than the
  timeout elapsed, then \<open>WaitFor\<close> returns success with the service decoded from that
  fetch; the fetch is the last event of the run, so nothing, and no sleep, follows it.
\<close>

theorem WaitFor_match:
  assumes "respond E (nreq w + k) (GET (svcURL r)) = Resp b"
    and "State (doc_of b) \<in> set D"
    and "\<forall>j<k. \<forall>b'. respond E (nreq w + j) (GET (svcURL r)) = Resp b' \<longrightarrow>
           State (doc_of b') \<notin> set D \<and>
           elapsed_after E r (nreq w) j \<le> seconds (UpgradeWaitTimeout (cfg r))"
  shows "\<exists>sv w'. WaitFor E r D w = Some ((Some sv, None), w') \<and> snapshot w' sv = doc_of b
           \<and> State sv \<in> set D \<and> nreq w' = nreq w + k + 1
           \<and> last (trace w') = Req (GET (svcURL r))"
  using WaitFor_match_aux[OF assms] .

theorem WaitFor_match_witness:
  "\<exists>sv w'. WaitFor env_upgraded (New cfg0) [''upgraded''] w0 = Some ((Some sv, None), w')
     \<and> snapshot w' sv = svc_doc ''upgraded'' \<and> State sv = ''upgraded'' \<and> nreq w' = 2
     \<and> last (trace w') = Req (GET url0)"
proof -
  have 1: "respond env_upgraded (nreq w0 + 1) (GET (svcURL (New cfg0)))
             = Resp (ServiceDoc (svc_doc ''upgraded''))"
    by (simp add: env_upgraded_def)
  have 2: "State (doc_of (ServiceDoc (svc_doc ''upgraded''))) \<in> set [''upgraded'']"
    by (simp add: doc_of_def svc_doc_def)
  have 3: "\<forall>j<1. \<forall>b'. respond env_upgraded (nreq w0 + j) (GET (svcURL (New cfg0))) = Resp b' \<longrightarrow>
           State (doc_of b') \<notin> set [''upgraded''] \<and>
           elapsed_after env_upgraded (New cfg0) (nreq w0) j \<le> seconds (UpgradeWaitTimeout (cfg (New cfg0)))"
    by (auto simp: env_upgraded_def doc_of_def svc_doc_def elapsed_after_def w0_def)
  from WaitFor_match[OF 1 2 3] show ?thesis
    by (auto simp: doc_of_def w0_def)
qed









text \<open>
  Claim C10. When the wait inside \<open>Cancel\<close> ends with an error, the error is the timeout,
  it comes with a service that is not nil, and \<open>Cancel\<close> logs and returns that error at
  once: after the cancel action the run consists of the polls and interval sleeps of
  the wait and of nothing else, so no rollback action and no start action is issued.
\<close>

theorem Cancel_wait_error:
  assumes "respond E (nreq w) (POST (svcURL r @ ''?action=cancelupgrade'') None) = Resp b"
    and "WaitFor E r [''upgraded'', ''canceled-upgrade'', ''active'']
           (log (LogResponse b) (snd (Do E (POST (svcURL r @ ''?action=cancelupgrade'') None) w)))
         = Some ((svc, Some e), w2)"
  shows "Cancel E r w = Some (Return (Some e), log (LogError e) w2)
           \<and> e = TimedOut \<and> svc \<noteq> None
           \<and> (\<exists>t. trace (log (LogError e) w2)
                    = trace w @ Req (POST (svcURL r @ ''?action=cancelupgrade'') None) # t
                 \<and> set t \<subseteq> insert (Req (GET (svcURL r))) (range Slept)
                 \<and> (\<forall>u p. Req (POST u p) \<notin> set t))"
proof -
  have "Cancel E r w = Some (Return (Some e), log (LogError e) w2)"
    using assms by (simp add: Cancel_def Cancel_after_wait_def Do_def split: option.splits)
  moreover from WaitFor_result[OF assms(2)] obtain t where
    "trace w2 = trace w @ Req (POST (svcURL r @ ''?action=cancelupgrade'') None) # t"
    "set t \<subseteq> insert (Req (GET (svcURL r))) (range Slept)"
    and "e = TimedOut" "svc \<noteq> None"
    by (auto simp: log_simps Do_simps)
  moreover from this(2) have "\<forall>u p. Req (POST u p) \<notin> set t" by auto
  ultimately show ?thesis by (auto simp: log_simps)
qed

theorem Cancel_wait_error_witness:
  "\<exists>w' t. Cancel env_stuck (New cfg0) w0 = Some (Return (Some TimedOut), w')
     \<and> trace w' = Req (POST (url0 @ ''?action=cancelupgrade'') None) # t
     \<and> set t \<subseteq> insert (Req (GET url0)) (range Slept)
     \<and> Req (POST (url0 @ ''?action=rollback'') None) \<notin> set t"
proof -
  let ?E = env_stuck and ?r = "New cfg0"
  let ?b = "ServiceDoc (svc_doc ''upgrading'')"
  let ?wc = "log (LogResponse ?b) (snd (Do ?E (POST (svcURL ?r @ ''?action=cancelupgrade'') None) w0))"
  have 1: "respond ?E (nreq w0) (POST (svcURL ?r @ ''?action=cancelupgrade'') None) = Resp ?b"
    by (simp add: env_stuck_def)
  have a: "0 < seconds (CheckInterval (cfg ?r)) \<or> (\<forall>i. 0 < latency ?E i)" by simp
  have b: "\<forall>i. \<exists>j\<ge>i. respond ?E j (GET (svcURL ?r)) \<noteq> NetErr"
    by (auto simp: env_stuck_def)
  have c: "\<forall>i\<ge>nreq ?wc. \<forall>b. respond ?E i (GET (svcURL ?r)) = Resp b
             \<longrightarrow> State (doc_of b) \<notin> set [''upgraded'', ''canceled-upgrade'', ''active'']"
    by (auto simp: env_stuck_def doc_of_def svc_doc_def)
  from WaitFor_never_aux[OF a b c] obtain sv w2 where
    2: "WaitFor ?E ?r [''upgraded'', ''canceled-upgrade'', ''active''] ?wc
          = Some ((Some sv, Some TimedOut), w2)"
    by blast
  from Cancel_wait_error[OF 1 2] show ?thesis
    by (auto simp: w0_def)
qed

lemma findMatch_eval:
  "findMatch (c # cs) =
     (if c = CHR '':'' then
        (if cs \<noteq> [] \<and> list_all tagChar cs then Some ([], c # cs)
         else (case findMatch cs of None \<Rightarrow> None | Some (p, m) \<Rightarrow> Some (c # p, m)))
      else (case findMatch cs of None \<Rightarrow> None | Some (p, m) \<Rightarrow> Some (c # p, m)))"
  by simp

lemmas rewrite_eval =
  rewriteImage_def ReplaceAllString_def findMatch_eval findMatch.simps(1) tagChar_def

lemma rewrite_docker_old: "rewriteImage X ''docker:repo/img:old'' ''v2'' = ''docker:repo/img:v2''"
  by (simp add: rewrite_eval del: findMatch.simps(2))

lemmas run_defs =
  main_def main_wait_def main_verify_def main_finish_def GetServiceConfig_def Upgrade_def
  FinishUpgrade_def ImageUUID_def Marshal_def deref_def WaitFor_def Do_def log_def time_Sleep_def
  Decode_Service_def alloc_def New_def cfg0_def url0_def w0_def svc_doc_def Let_def

lemmas cmd_run_defs =
  cmd_main_def cmd_main_wait_def cmd_main_verify_def cmd_main_finish_def waitFor_def


lemma tagChar_colon [simp]: "\<not> tagChar CHR '':''"
  by (simp add: tagChar_def)

lemma findMatch_None_no_colon: "CHR '':'' \<notin> set s \<Longrightarrow> findMatch s = None"
  by (induction s) auto

lemma findMatch_append_tag:
  "findMatch t = None \<Longrightarrow>
   findMatch (p @ CHR '':'' # t) =
     (if t \<noteq> [] \<and> list_all tagChar t then Some (p, CHR '':'' # t) else None)"
  by (induction p) auto

text \<open>
  Claim C9, amended. The image reference rewrite is idempotent for the same tag
  whenever the tag contains no \<open>$\<close> and does not itself end in a colon followed by one
  or more characters of \<open>[a-z0-9]\<close> (so for every tag without a colon): rewriting the
  result again with the same tag leaves it unchanged. Rewriting \<open>repo/img:old\<close> with
  the tag \<open>v2\<close> yields \<open>repo/img:v2\<close>, and rewriting \<open>repo/img:v2\<close> with \<open>v2\<close>
  yields \<open>repo/img:v2\<close>.
\<close>

theorem rewriteImage_idempotent:
  assumes "findMatch tag = None" and "CHR ''$'' \<notin> set tag"
  shows "rewriteImage X (rewriteImage X img tag) tag = rewriteImage X img tag
           \<and> rewriteImage X ''repo/img:old'' ''v2'' = ''repo/img:v2''
           \<and> rewriteImage X ''repo/img:v2'' ''v2'' = ''repo/img:v2''"
proof -
  have "rewriteImage X (rewriteImage X img tag) tag = rewriteImage X img tag"
  proof (cases "findMatch img")
    case None
    then show ?thesis by (simp add: rewriteImage_def ReplaceAllString_def)
  next
    case (Some pm)
    obtain p m where pm: "pm = (p, m)" by (cases pm)
    have 1: "rewriteImage X img tag = p @ CHR '':'' # tag"
      using Some pm assms(2) by (simp add: rewriteImage_def ReplaceAllString_def)
    show ?thesis
      unfolding 1 using assms
      by (simp add: rewriteImage_def ReplaceAllString_def findMatch_append_tag)
  qed
  moreover have "rewriteImage X ''repo/img:old'' ''v2'' = ''repo/img:v2''"
    by (simp add: rewrite_eval del: findMatch.simps(2))
  moreover have "rewriteImage X ''repo/img:v2'' ''v2'' = ''repo/img:v2''"
    by (simp add: rewrite_eval del: findMatch.simps(2))
  ultimately show ?thesis by simp
qed

theorem rewriteImage_idempotent_witness:
  "rewriteImage literal (rewriteImage literal ''repo/img:old'' ''v2'') ''v2''
     = rewriteImage literal ''repo/img:old'' ''v2''
   \<and> rewriteImage literal ''repo/img:old'' ''v2'' = ''repo/img:v2''
   \<and> rewriteImage literal ''repo/img:v2'' ''v2'' = ''repo/img:v2''"
proof -
  have 1: "findMatch ''v2'' = None" by (rule findMatch_None_no_colon) simp
  have 2: "CHR ''$'' \<notin> set ''v2''" by simp
  from rewriteImage_idempotent[OF 1 2] show ?thesis .
qed

text \<open>
  The claim as stated fails for a tag that contains a colon: the second rewrite finds
  the tail of the tag itself and replaces it with the whole tag again.
\<close>

theorem rewriteImage_colon_tag:
  "rewriteImage literal ''repo/img:old'' ''a:b'' = ''repo/img:a:b''
   \<and> rewriteImage literal (rewriteImage literal ''repo/img:old'' ''a:b'') ''a:b'' = ''repo/img:a:a:b''"
  by (simp add: rewrite_eval del: findMatch.simps(2))

text \<open>
  Claim C8. For every run in which the service fetched first has no upgrade link, the
  orchestrator ends with \<open>log.Fatal\<close> (exit status 1) after logging the state of the
  service; the fetch is the only request of the run: it is not repeated and no upgrade
  request is submitted. This holds for \<open>main\<close> and for the earlier \<open>main\<close> of
  cmd/main.go.
\<close>

theorem main_not_upgradeable:
  assumes "respond E (nreq w) (GET (svcURL (New c))) = Resp (ServiceDoc d)"
    and "aUpgrade (Actions d) = []"
  shows "(\<exists>w'. main X E c w = Some (ExitFatal, w')
            \<and> trace w' = trace w @ [Req (GET (svcURL (New c)))]
            \<and> logs w' = logs w @ [LogNotUpgradeable (State d)])
       \<and> (\<exists>w'. cmd_main X E c w = Some (ExitFatal, w')
            \<and> trace w' = trace w @ [Req (GET (svcURL (New c)))]
            \<and> logs w' = logs w @ [LogNotUpgradeable (State d)])"
proof -
  have "\<exists>w'. main X E c w = Some (ExitFatal, w')
            \<and> trace w' = trace w @ [Req (GET (svcURL (New c)))]
            \<and> logs w' = logs w @ [LogNotUpgradeable (State d)]"
    using assms
    by (simp add: main_def GetServiceConfig_def Do_def Decode_Service_def alloc_def log_def Let_def
        split: option.splits)
  moreover have "\<exists>w'. cmd_main X E c w = Some (ExitFatal, w')
            \<and> trace w' = trace w @ [Req (GET (svcURL (New c)))]
            \<and> logs w' = logs w @ [LogNotUpgradeable (State d)]"
    using assms
    by (simp add: cmd_main_def New_def Do_def Decode_Service_def alloc_def log_def Let_def
        split: option.splits)
  ultimately show ?thesis by simp
qed

theorem main_not_upgradeable_witness:
  "(\<exists>w'. main literal env_busy cfg0 w0 = Some (ExitFatal, w')
      \<and> trace w' = [Req (GET url0)]
      \<and> logs w' = [LogNotUpgradeable ''upgrading''])
   \<and> (\<exists>w'. cmd_main literal env_busy cfg0 w0 = Some (ExitFatal, w')
      \<and> trace w' = [Req (GET url0)]
      \<and> logs w' = [LogNotUpgradeable ''upgrading''])"
proof -
  let ?d = "(svc_doc ''upgrading'')\<lparr>Actions := zeroActions\<rparr>"
  have 1: "respond env_busy (nreq w0) (GET (svcURL (New cfg0))) = Resp (ServiceDoc ?d)"
    by (simp add: env_busy_def)
  have 2: "aUpgrade (Actions ?d) = []"
    by (simp add: zeroActions_def)
  from main_not_upgradeable[OF 1 2, of literal] show ?thesis
    by (simp add: w0_def svc_doc_def)
qed




text \<open>
  Claim C6 fails on the code. \<open>main\<close> builds the payload around the map of the service
  it fetched itself; \<open>Upgrade\<close> fetches the service again and applies the \<open>ImageUUID\<close>
  option to the map of that second fetch, then serialises the payload, whose map the
  option never touched. In this run the build tag is \<open>v2\<close> and the image is
  \<open>docker:repo/img:old\<close>: the rewritten reference \<open>docker:repo/img:v2\<close> ends in the map
  at address 1, and the upgrade request carries the map at address 0 with the old
  reference. The earlier \<open>main\<close> of cmd/main.go, on the same input, sends the rewritten
  reference.
\<close>

theorem main_posts_old_image:
  "(\<exists>w' body m. main literal env_upgrade cfg0 w0 = Some (ExitOK, w')
      \<and> trace w' ! 2 = Req (POST ''http://rancher/v1/projects/1a5/services/1s7/?action=upgrade'' (Some body))
      \<and> issLaunchConfig (InServiceStrategy body) = Some m
      \<and> m ''imageUuid'' = Some (JString ''docker:repo/img:old'')
      \<and> heap w' 0 ''imageUuid'' = Some (JString ''docker:repo/img:old'')
      \<and> heap w' 1 ''imageUuid'' = Some (JString ''docker:repo/img:v2''))
   \<and> rewriteImage literal ''docker:repo/img:old'' (BuildTag cfg0) = ''docker:repo/img:v2''
   \<and> (\<exists>w' body m. cmd_main literal env_upgrade cfg0 w0 = Some (ExitOK, w')
      \<and> trace w' ! 1 = Req (POST ''http://rancher/v1/projects/1a5/services/1s7/?action=upgrade'' (Some body))
      \<and> issLaunchConfig (InServiceStrategy body) = Some m
      \<and> m ''imageUuid'' = Some (JString ''docker:repo/img:v2''))"
proof (intro conjI)
  show "\<exists>w' body m. main literal env_upgrade cfg0 w0 = Some (ExitOK, w')
      \<and> trace w' ! 2 = Req (POST ''http://rancher/v1/projects/1a5/services/1s7/?action=upgrade'' (Some body))
      \<and> issLaunchConfig (InServiceStrategy body) = Some m
      \<and> m ''imageUuid'' = Some (JString ''docker:repo/img:old'')
      \<and> heap w' 0 ''imageUuid'' = Some (JString ''docker:repo/img:old'')
      \<and> heap w' 1 ''imageUuid'' = Some (JString ''docker:repo/img:v2'')"
    apply (simp add: run_defs env_upgrade_def rewrite_docker_old)
    apply (subst WaitFor_loop.simps)
    apply (simp add: run_defs env_upgrade_def)
    apply (subst WaitFor_loop.simps)
    apply (simp add: run_defs env_upgrade_def)
    done
  show "rewriteImage literal ''docker:repo/img:old'' (BuildTag cfg0) = ''docker:repo/img:v2''"
    by (simp add: cfg0_def rewrite_docker_old)
  show "\<exists>w' body m. cmd_main literal env_upgrade cfg0 w0 = Some (ExitOK, w')
      \<and> trace w' ! 1 = Req (POST ''http://rancher/v1/projects/1a5/services/1s7/?action=upgrade'' (Some body))
      \<and> issLaunchConfig (InServiceStrategy body) = Some m
      \<and> m ''imageUuid'' = Some (JString ''docker:repo/img:v2'')"
    apply (simp add: cmd_run_defs run_defs env_upgrade_def rewrite_docker_old)
    apply (subst WaitFor_loop.simps)
    apply (simp add: cmd_run_defs run_defs env_upgrade_def seconds_def)
    apply (subst WaitFor_loop.simps)
    apply (simp add: cmd_run_defs run_defs env_upgrade_def)
    done
qed

end
